theory Spec2Isabelle
  imports Main "HOL-Library.Char_ord" "HOL-Library.List_Lexorder"
begin

section \<open>JavaScript values\<close>

text \<open>
  Tool arguments, page-script results and the \<open>data\<close> payload of driver results are
  typed \<open>any\<close> in the source. They are modelled by the JSON-like values below. A string
  is a list of code units below 256; a number is an integer, one that a double holds
  exactly (the model has no fractional numbers, and nothing that rounds); an object is the
  list of its own enumerable properties in property order, a plain object whose prototype
  is \<open>Object.prototype\<close>.
\<close>

datatype jsval =
    JUndefined
  | JNull
  | JBool bool
  | JNum int
  | JStr string
  | JArr "jsval list"
  | JObj "(string \<times> jsval) list"

text \<open>Truthiness, as used by \<open>!x\<close>, \<open>x || y\<close>, \<open>x ? a : b\<close> and \<open>if (x)\<close>.\<close>

fun truthy :: "jsval \<Rightarrow> bool" where
  "truthy JUndefined = False"
| "truthy JNull = False"
| "truthy (JBool b) = b"
| "truthy (JNum n) = (n \<noteq> 0)"
| "truthy (JStr s) = (s \<noteq> [])"
| "truthy (JArr xs) = True"
| "truthy (JObj kvs) = True"

definition js_or :: "jsval \<Rightarrow> jsval \<Rightarrow> jsval" where
  \<comment> \<open>\<open>a || b\<close>\<close>
  "js_or a b = (if truthy a then a else b)"

definition with_default :: "jsval \<Rightarrow> jsval \<Rightarrow> jsval" where
  \<comment> \<open>a destructuring default \<open>{ x = d }\<close>: used when the property is undefined\<close>
  "with_default v d = (if v = JUndefined then d else v)"

text \<open>Decimal digits of a number, for template strings.\<close>

fun digits :: "nat \<Rightarrow> string" where
  "digits n = (if n < 10 then [char_of (48 + n)] else digits (n div 10) @ [char_of (48 + n mod 10)])"

declare digits.simps [simp del]

function int_digits :: "int \<Rightarrow> string" where
  \<comment> \<open>the same for a number that is not negative\<close>
  "int_digits i = (if i < 10 then [char_of (48 + i)] else int_digits (i div 10) @ [char_of (48 + i mod 10)])"
  by auto
termination
  by (relation "measure nat") auto

declare int_digits.simps [simp del]

definition show_int :: "int \<Rightarrow> string" where
  "show_int i = (if i < 0 then CHR ''-'' # int_digits (- i) else int_digits i)"

text \<open>
  A number as JavaScript prints it: plain decimal digits below \<open>10\<^sup>2\<^sup>1\<close>, and from there on
  the exponent form \<open>d.ddde+n\<close> (\<open>1e+21\<close>), without the trailing zeros of the mantissa.
  The digits are those of the integer itself.
\<close>

definition exponent_form :: "int \<Rightarrow> string" where
  "exponent_form m =
     (let ds = int_digits m;
          mantissa = rev (dropWhile (\<lambda>c. c = CHR ''0'') (rev (tl ds))) in
      hd ds # (if mantissa = [] then [] else CHR ''.'' # mantissa) @ ''e+'' @ digits (length ds - 1))"

definition show_num :: "int \<Rightarrow> string" where
  "show_num i =
     (if \<bar>i\<bar> < 10 ^ 21 then show_int i
      else if i < 0 then CHR ''-'' # exponent_form (- i)
      else exponent_form i)"

fun join_with :: "string \<Rightarrow> string list \<Rightarrow> string" where
  \<comment> \<open>\<open>xs.join(sep)\<close> on strings\<close>
  "join_with sep [] = []"
| "join_with sep [x] = x"
| "join_with sep (x # y # ys) = x @ sep @ join_with sep (y # ys)"

text \<open>
  String conversion, as a template string \<open>`${v}`\<close> performs it. An array joins its
  elements with commas, null and undefined elements giving the empty string.
\<close>

fun to_str :: "jsval \<Rightarrow> string" where
  "to_str JUndefined = ''undefined''"
| "to_str JNull = ''null''"
| "to_str (JBool b) = (if b then ''true'' else ''false'')"
| "to_str (JNum n) = show_num n"
| "to_str (JStr s) = s"
| "to_str (JArr xs) =
     join_with '','' (map (\<lambda>x. if x = JUndefined \<or> x = JNull then [] else to_str x) xs)"
| "to_str (JObj kvs) = ''[object Object]''"

text \<open>
  Property read \<open>v.k\<close>. Reading a property of undefined or null throws a TypeError;
  an absent property is undefined. Arrays and strings have \<open>length\<close> and index
  properties.
\<close>

type_synonym 'a res = "string + 'a"
  \<comment> \<open>\<open>Inl m\<close>: an \<open>Error\<close> with message \<open>m\<close> was thrown\<close>

definition obj_get :: "(string \<times> jsval) list \<Rightarrow> string \<Rightarrow> jsval" where
  "obj_get kvs k = (case map_of kvs k of None \<Rightarrow> JUndefined | Some v \<Rightarrow> v)"

definition index_of_key :: "nat \<Rightarrow> string \<Rightarrow> nat option" where
  \<comment> \<open>the index below \<open>n\<close> whose decimal form is the key \<open>k\<close>\<close>
  "index_of_key n k = find (\<lambda>i. digits i = k) [0..<n]"

definition js_get_opt :: "jsval \<Rightarrow> string \<Rightarrow> jsval" where
  \<comment> \<open>\<open>v?.k\<close>, and \<open>v.k\<close> on a value that is neither undefined nor null\<close>
  "js_get_opt v k =
     (case v of
        JObj kvs \<Rightarrow> obj_get kvs k
      | JArr xs \<Rightarrow>
          (if k = ''length'' then JNum (int (length xs))
           else case index_of_key (length xs) k of Some i \<Rightarrow> xs ! i | None \<Rightarrow> JUndefined)
      | JStr s \<Rightarrow>
          (if k = ''length'' then JNum (int (length s))
           else case index_of_key (length s) k of Some i \<Rightarrow> JStr [s ! i] | None \<Rightarrow> JUndefined)
      | _ \<Rightarrow> JUndefined)"

definition js_get :: "jsval \<Rightarrow> string \<Rightarrow> jsval res" where
  "js_get v k =
     (if v = JUndefined \<or> v = JNull
      then Inl (''Cannot read properties of '' @ to_str v @ '' (reading '' @ [CHR 0x27] @ k @ [CHR 0x27] @ '')'')
      else Inr (js_get_opt v k))"

text \<open>
  Number conversion, as the relational operators perform it on a non-number operand;
  \<open>None\<close> is NaN. A string converts when, trimmed, it is empty or a decimal integer
  with an optional sign: the other numerals denote numbers outside this model.
\<close>

definition is_digit :: "char \<Rightarrow> bool" where
  "is_digit c \<longleftrightarrow> 48 \<le> (of_char c :: nat) \<and> (of_char c :: nat) \<le> 57"

definition digits_value :: "string \<Rightarrow> int" where
  "digits_value s = foldl (\<lambda>acc c. 10 * acc + (int (of_char c) - 48)) 0 s"

definition is_space :: "char \<Rightarrow> bool" where
  \<comment> \<open>the class \<open>\s\<close> of regular expressions, which is also what \<open>trim\<close> removes,
      on code units below 256: tab, line feed, vertical tab, form feed, carriage return,
      space and no-break space\<close>
  "is_space c \<longleftrightarrow> c \<in> set [CHR 0x09, CHR 0x0A, CHR 0x0B, CHR 0x0C, CHR 0x0D, CHR 0x20, CHR 0xA0]"

definition trim :: "string \<Rightarrow> string" where
  "trim s = rev (dropWhile is_space (rev (dropWhile is_space s)))"

definition str_to_number :: "string \<Rightarrow> int option" where
  "str_to_number s =
     (let t = trim s in
      case t of
        [] \<Rightarrow> Some 0
      | c # cs \<Rightarrow>
          if c = CHR ''-'' \<and> cs \<noteq> [] \<and> list_all is_digit cs then Some (- digits_value cs)
          else if c = CHR ''+'' \<and> cs \<noteq> [] \<and> list_all is_digit cs then Some (digits_value cs)
          else if list_all is_digit t then Some (digits_value t)
          else None)"

fun to_number :: "jsval \<Rightarrow> int option" where
  "to_number JUndefined = None"
| "to_number JNull = Some 0"
| "to_number (JBool b) = Some (if b then 1 else 0)"
| "to_number (JNum n) = Some n"
| "to_number (JStr s) = str_to_number s"
| "to_number (JArr xs) = str_to_number (to_str (JArr xs))"
| "to_number (JObj kvs) = None"

definition js_gt :: "jsval \<Rightarrow> int \<Rightarrow> bool" where
  \<comment> \<open>\<open>v > n\<close> for a number \<open>n\<close>\<close>
  "js_gt v n = (case to_number v of None \<Rightarrow> False | Some m \<Rightarrow> n < m)"

definition js_typeof_object :: "jsval \<Rightarrow> bool" where
  \<comment> \<open>\<open>typeof v === 'object'\<close>\<close>
  "js_typeof_object v = (case v of JNull \<Rightarrow> True | JArr xs \<Rightarrow> True | JObj kvs \<Rightarrow> True | _ \<Rightarrow> False)"

definition object_entries :: "jsval \<Rightarrow> (string \<times> jsval) list res" where
  \<comment> \<open>\<open>Object.entries(v)\<close>\<close>
  "object_entries v =
     (case v of
        JUndefined \<Rightarrow> Inl ''Cannot convert undefined or null to object''
      | JNull \<Rightarrow> Inl ''Cannot convert undefined or null to object''
      | JObj kvs \<Rightarrow> Inr kvs
      | JArr xs \<Rightarrow> Inr (map (\<lambda>i. (digits i, xs ! i)) [0..<length xs])
      | JStr s \<Rightarrow> Inr (map (\<lambda>i. (digits i, JStr [s ! i])) [0..<length s])
      | _ \<Rightarrow> Inr [])"

definition object_keys_length :: "jsval \<Rightarrow> nat" where
  \<comment> \<open>\<open>Object.keys(v).length\<close> on a value that is neither undefined nor null\<close>
  "object_keys_length v = (case object_entries v of Inl m \<Rightarrow> 0 | Inr kvs \<Rightarrow> length kvs)"

text \<open>
  Property order. The own properties of an object are enumerated with the array indices
  first, in ascending order, and then the other keys in the order they were created. An
  array index is the canonical decimal form of an integer below \<open>2\<^sup>3\<^sup>2 - 1\<close>.
\<close>

definition index_key :: "string \<Rightarrow> int option" where
  "index_key k =
     (if k \<noteq> [] \<and> list_all is_digit k \<and> (k = ''0'' \<or> hd k \<noteq> CHR ''0'') \<and> digits_value k < 4294967295
      then Some (digits_value k) else None)"

fun insert_index :: "int \<Rightarrow> string \<times> jsval \<Rightarrow> (string \<times> jsval) list \<Rightarrow> (string \<times> jsval) list" where
  \<comment> \<open>a new property whose key is the array index \<open>n\<close> goes before the first property
      that is not a smaller array index\<close>
  "insert_index n kv [] = [kv]"
| "insert_index n kv (p # rest) =
     (case index_key (fst p) of
        Some m \<Rightarrow> if m < n then p # insert_index n kv rest else kv # p # rest
      | None \<Rightarrow> kv # p # rest)"

text \<open>
  The assignment \<open>o[k] = v\<close> on a plain object. An own property \<open>k\<close> is overwritten in
  place. Otherwise the key \<open>__proto__\<close> reaches the setter inherited from
  \<open>Object.prototype\<close>, which creates no property (it ignores a primitive \<open>v\<close> and takes an
  object \<open>v\<close> as the new prototype); any other key becomes a new own property.
\<close>

definition obj_set :: "(string \<times> jsval) list \<Rightarrow> string \<Rightarrow> jsval \<Rightarrow> (string \<times> jsval) list" where
  "obj_set kvs k v =
     (if k \<in> fst ` set kvs then map (\<lambda>(k', v'). if k' = k then (k', v) else (k', v')) kvs
      else if k = ''__proto__'' then kvs
      else case index_key k of
             Some n \<Rightarrow> insert_index n (k, v) kvs
           | None \<Rightarrow> kvs @ [(k, v)])"

section \<open>Content summary (BrowserContextService.createContentSummary)\<close>

definition is_newline :: "char \<Rightarrow> bool" where
  "is_newline c \<longleftrightarrow> c = CHR 0x0A"

text \<open>\<open>s.replace(/X+/g, ' ')\<close>: every maximal run of characters of the class becomes one space.\<close>

function replace_runs :: "(char \<Rightarrow> bool) \<Rightarrow> string \<Rightarrow> string" where
  "replace_runs P [] = []"
| "replace_runs P (c # cs) =
     (if P c then CHR '' '' # replace_runs P (dropWhile P cs) else c # replace_runs P cs)"
  by pat_completeness auto
termination
  by (relation "measure (\<lambda>(P, s). length s)") (auto simp: length_dropWhile_le less_Suc_eq_le)

text \<open>\<open>s.lastIndexOf(c)\<close> for a one-character \<open>c\<close>: the last index holding it, or -1.\<close>

fun lastIndexOf :: "string \<Rightarrow> char \<Rightarrow> int" where
  "lastIndexOf [] c = - 1"
| "lastIndexOf (x # xs) c =
     (let r = lastIndexOf xs c in if 0 \<le> r then r + 1 else if x = c then 0 else - 1)"

definition clean_content :: "string \<Rightarrow> string" where
  \<comment> \<open>\<open>content.replace(/\s+/g, ' ').replace(/\n+/g, ' ').trim()\<close>\<close>
  "clean_content content = trim (replace_runs is_newline (replace_runs is_space content))"

text \<open>
  \<open>maxLength\<close> defaults to 200 when the caller passes undefined (\<open>None\<close>). The test
  \<open>lastSpace > maxLength * 0.8\<close> is on integers here, where it is \<open>4 * maxLength < 5 * lastSpace\<close>.
\<close>

definition createContentSummary :: "string \<Rightarrow> nat option \<Rightarrow> string" where
  "createContentSummary content maxLengthArg =
     (let maxLength = (case maxLengthArg of None \<Rightarrow> 200 | Some n \<Rightarrow> n) in
      if content = [] then ''No content available''
      else
        let cleaned = clean_content content in
        if length cleaned \<le> maxLength then cleaned
        else
          let truncated = take maxLength cleaned;
              lastSpace = lastIndexOf truncated (CHR '' '') in
          if 4 * int maxLength < 5 * lastSpace
          then take (nat lastSpace) truncated @ ''...''
          else truncated @ ''...'')"

text \<open>
  The summary policy in the specification's words, to compare with the code: the words of
  the content (maximal runs of non-blank characters) joined by single spaces, and the
  places where a cut may back up to (the spaces of the truncation window lying beyond
  four fifths of it).
\<close>

function ws_words :: "string \<Rightarrow> string list" where
  "ws_words [] = []"
| "ws_words (c # cs) =
     (if is_space c then ws_words (dropWhile is_space cs)
      else (c # takeWhile (\<lambda>x. \<not> is_space x) cs) # ws_words (dropWhile (\<lambda>x. \<not> is_space x) cs))"
  by pat_completeness auto
termination
  by (relation "measure length") (auto simp: length_dropWhile_le less_Suc_eq_le)

definition spec_collapse :: "string \<Rightarrow> string" where
  "spec_collapse content = join_with '' '' (ws_words content)"

definition backup_points :: "string \<Rightarrow> nat \<Rightarrow> nat list" where
  "backup_points cleaned n = [i \<leftarrow> [0..<n]. cleaned ! i = CHR '' '' \<and> 4 * n < 5 * i]"

definition ends_ws :: "string \<Rightarrow> string" where
  \<comment> \<open>the blank that a run of blanks ending the text leaves behind\<close>
  "ends_ws s = (if s \<noteq> [] \<and> is_space (last s) then '' '' else [])"

section \<open>The automation driver (PuppeteerManager)\<close>

text \<open>
  The page scripts the source builds from templates are long texts; each is represented
  by a constructor applied to the values the template interpolates.
\<close>

datatype script =
    ScriptText jsval
      \<comment> \<open>the value handed to \<open>page.evaluate\<close> as it is\<close>
  | ExtractTextScript string
      \<comment> \<open>text of the elements matching the interpolated selector\<close>
  | ExtractLinksScript "string option"
      \<comment> \<open>links of the page, with the interpolated lower-cased filter if any\<close>
  | WaitForElementScript string string
      \<comment> \<open>promise resolving when the selector matches, rejecting after the timeout\<close>
  | BasicPageInfoScript
  | InteractiveElementsScript string string string
      \<comment> \<open>visibility test, cap per element type, cap of the clickable elements\<close>
  | NavigationStateScript
      \<comment> \<open>\<open>({ canGoBack: window.history.length > 1, canGoForward: false, history: [] })\<close>\<close>
  | ViewportInfoScript

text \<open>What the code asks of a puppeteer page, of the browser launcher and of the clock.\<close>

datatype pageop =
    Goto string
  | Url
  | Title
  | WaitForSelector jsval nat
  | Click jsval
  | KeyboardDown string
  | KeyboardPress string
  | KeyboardUp string
  | TypeText jsval jsval
  | Evaluate script
  | Screenshot jsval
  | Content
  | EvalInnerText
  | EvalMeta
  | EvalLinks

text \<open>The methods of PuppeteerManager: the driver primitives the tool executor calls.\<close>

datatype dcall =
    Initialize
  | NavigateToUrl string jsval
  | ClickElement string jsval
  | FillForm string jsval
  | EvaluateScript string script
  | TakeScreenshot string jsval
  | GetPageContent string bool

datatype AIServiceType = OpenAI | Gemini | Claude

record BrowserToolCall =
  tc_id :: string
  tc_name :: string
  tc_arguments :: "(string \<times> jsval) list"

datatype Role = System | User | Assistant | Tool

record AIMessage =
  m_role :: Role
  m_content :: string
  m_timestamp :: "int option"
  m_toolCalls :: "BrowserToolCall list option"
  m_toolCallId :: "string option"

record AIResponse =
  r_content :: string
  r_toolCalls :: "BrowserToolCall list option"

text \<open>
  Everything done on the driver's side so far, oldest first: each driver method entered,
  each request made to a page, to the launcher and to the clock.
\<close>

datatype event =
    Drv dcall
  | Page string pageop
  | Launch
  | DateNow

text \<open>
  A call to an AI backend: the service, \<open>sendMessageWithTools\<close> (True) or \<open>sendMessage\<close>
  (False), the messages, and the names of the tools sent.
\<close>

datatype provider_call = Asked AIServiceType bool "AIMessage list" "string list"

datatype thrown = Error string | NonError
  \<comment> \<open>what a page operation throws: an \<open>Error\<close> with its message, or another value\<close>

text \<open>
  The outside world is any function of the history: what a page answers, whether the
  browser launches, what time it is, and what an AI backend replies.
\<close>

record Oracle =
  page_reply :: "event list \<Rightarrow> string \<Rightarrow> pageop \<Rightarrow> thrown + jsval"
  launch_reply :: "event list \<Rightarrow> thrown + unit"
  clock :: "event list \<Rightarrow> int"
  service :: "AIServiceType \<Rightarrow> bool option"
    \<comment> \<open>\<open>aiManager.getService\<close>: null, or a service and what \<open>supportsToolCalling()\<close> says\<close>
  provider_reply :: "event list \<Rightarrow> provider_call list \<Rightarrow> provider_call \<Rightarrow> AIResponse res"
    \<comment> \<open>the reply to a call, given the driver's history and the earlier calls\<close>

record World =
  isInitialized :: bool
  browser :: bool
    \<comment> \<open>\<open>this.browser !== null\<close>\<close>
  pages :: "string list"
    \<comment> \<open>the keys of \<open>this.pages\<close>\<close>
  trace :: "event list"

record AutomationResult =
  ar_success :: bool
  ar_data :: jsval
  ar_error :: "string option"
  ar_screenshot :: jsval

definition ar_ok :: "jsval \<Rightarrow> AutomationResult" where
  "ar_ok d = \<lparr> ar_success = True, ar_data = d, ar_error = None, ar_screenshot = JUndefined \<rparr>"

definition ar_fail :: "string \<Rightarrow> AutomationResult" where
  "ar_fail m = \<lparr> ar_success = False, ar_data = JUndefined, ar_error = Some m, ar_screenshot = JUndefined \<rparr>"

definition thrown_message :: "thrown \<Rightarrow> string" where
  \<comment> \<open>\<open>error instanceof Error ? error.message : 'Unknown error'\<close>\<close>
  "thrown_message t = (case t of Error m \<Rightarrow> m | NonError \<Rightarrow> ''Unknown error'')"

definition record_event :: "event \<Rightarrow> World \<Rightarrow> World" where
  "record_event e w = w\<lparr> trace := trace w @ [e] \<rparr>"

definition page_call :: "Oracle \<Rightarrow> string \<Rightarrow> pageop \<Rightarrow> World \<Rightarrow> (thrown + jsval) \<times> World" where
  "page_call orc pageId op w = (page_reply orc (trace w) pageId op, record_event (Page pageId op) w)"

definition date_now :: "Oracle \<Rightarrow> World \<Rightarrow> int \<times> World" where
  "date_now orc w = (clock orc (trace w), record_event DateNow w)"

definition isReady :: "World \<Rightarrow> bool" where
  "isReady w \<longleftrightarrow> isInitialized w \<and> browser w"

definition initialize :: "Oracle \<Rightarrow> World \<Rightarrow> bool \<times> World" where
  "initialize orc w0 =
     (let w = record_event (Drv Initialize) w0 in
      case launch_reply orc (trace w) of
        Inl t \<Rightarrow> (False, record_event Launch w)
      | Inr u \<Rightarrow> (True, (record_event Launch w)\<lparr> browser := True, isInitialized := True \<rparr>))"

definition getPageInfo :: "Oracle \<Rightarrow> string \<Rightarrow> World \<Rightarrow> jsval \<times> World" where
  "getPageInfo orc pageId w =
     (if pageId \<notin> set (pages w) then (JNull, w)
      else
        case page_call orc pageId Url w of
          (Inl t, w1) \<Rightarrow> (JNull, w1)
        | (Inr url, w1) \<Rightarrow>
            (case page_call orc pageId Title w1 of
               (Inl t, w2) \<Rightarrow> (JNull, w2)
             | (Inr title, w2) \<Rightarrow>
                 (case date_now orc w2 of
                    (now, w3) \<Rightarrow>
                      (JObj [(''url'', url), (''title'', title), (''timestamp'', JNum now)], w3))))"

definition page_missing :: "string \<Rightarrow> AutomationResult" where
  "page_missing pageId = ar_fail (''Page '' @ pageId @ '' not found'')"

definition starts_with :: "string \<Rightarrow> string \<Rightarrow> bool" where
  "starts_with s p \<longleftrightarrow> take (length p) s = p"

definition navigateToUrl :: "Oracle \<Rightarrow> string \<Rightarrow> jsval \<Rightarrow> World \<Rightarrow> AutomationResult \<times> World" where
  "navigateToUrl orc pageId url w0 =
     (let w = record_event (Drv (NavigateToUrl pageId url)) w0 in
      if pageId \<notin> set (pages w) then (page_missing pageId, w)
      else
        case url of
          JStr u \<Rightarrow>
            (let target = (if \<not> starts_with u ''http://'' \<and> \<not> starts_with u ''https://''
                           then ''https://'' @ u else u) in
             case page_call orc pageId (Goto target) w of
               (Inl t, w1) \<Rightarrow> (ar_fail (''Navigation failed: '' @ thrown_message t), w1)
             | (Inr response, w1) \<Rightarrow>
                 (case getPageInfo orc pageId w1 of
                    (pageInfo, w2) \<Rightarrow>
                      (case page_call orc pageId Url w2 of
                         (Inl t, w3) \<Rightarrow> (ar_fail (''Navigation failed: '' @ thrown_message t), w3)
                       | (Inr url', w3) \<Rightarrow>
                           (case page_call orc pageId Title w3 of
                              (Inl t, w4) \<Rightarrow> (ar_fail (''Navigation failed: '' @ thrown_message t), w4)
                            | (Inr title, w4) \<Rightarrow>
                                (ar_ok (JObj [(''url'', url'), (''title'', title),
                                              (''status'', js_get_opt response ''status''),
                                              (''pageInfo'', pageInfo)]), w4)))))
        | _ \<Rightarrow> (ar_fail ''Navigation failed: url.startsWith is not a function'', w))"

definition clickElement :: "Oracle \<Rightarrow> string \<Rightarrow> jsval \<Rightarrow> World \<Rightarrow> AutomationResult \<times> World" where
  "clickElement orc pageId selector w0 =
     (let w = record_event (Drv (ClickElement pageId selector)) w0 in
      if pageId \<notin> set (pages w) then (page_missing pageId, w)
      else
        case page_call orc pageId (WaitForSelector selector 5000) w of
          (Inl t, w1) \<Rightarrow> (ar_fail (''Click failed: '' @ thrown_message t), w1)
        | (Inr u, w1) \<Rightarrow>
            (case page_call orc pageId (Click selector) w1 of
               (Inl t, w2) \<Rightarrow> (ar_fail (''Click failed: '' @ thrown_message t), w2)
             | (Inr u', w2) \<Rightarrow>
                 (case page_call orc pageId Url w2 of
                    (Inl t, w3) \<Rightarrow> (ar_fail (''Click failed: '' @ thrown_message t), w3)
                  | (Inr url, w3) \<Rightarrow>
                      (ar_ok (JObj [(''clicked'', selector), (''currentUrl'', url)]), w3))))"

text \<open>
  One field of \<open>fillForm\<close>: the steps of the inner \<open>try\<close>, stopping at the first that throws.
  The result says whether all of them went through.
\<close>

fun page_steps :: "Oracle \<Rightarrow> string \<Rightarrow> pageop list \<Rightarrow> World \<Rightarrow> bool \<times> World" where
  "page_steps orc pageId [] w = (True, w)"
| "page_steps orc pageId (op # ops) w =
     (case page_call orc pageId op w of
        (Inl t, w1) \<Rightarrow> (False, w1)
      | (Inr v, w1) \<Rightarrow> page_steps orc pageId ops w1)"

definition field_steps :: "string \<Rightarrow> jsval \<Rightarrow> pageop list" where
  \<comment> \<open>the body of the inner \<open>try\<close>, for one entry \<open>[selector, value]\<close>\<close>
  "field_steps selector v =
     [WaitForSelector (JStr selector) 3000,
      Click (JStr selector),
      KeyboardDown ''Control'',
      KeyboardPress ''KeyA'',
      KeyboardUp ''Control'',
      TypeText (JStr selector) v]"

definition fill_field :: "Oracle \<Rightarrow> string \<Rightarrow> string \<Rightarrow> jsval \<Rightarrow> World \<Rightarrow> bool \<times> World" where
  "fill_field orc pageId selector v w = page_steps orc pageId (field_steps selector v) w"

text \<open>The loop over \<open>Object.entries(formData)\<close>, building \<open>results\<close>.\<close>

fun fill_fields ::
  "Oracle \<Rightarrow> string \<Rightarrow> (string \<times> jsval) list \<Rightarrow> (string \<times> jsval) list \<Rightarrow> World
   \<Rightarrow> (string \<times> jsval) list \<times> World" where
  "fill_fields orc pageId [] results w = (results, w)"
| "fill_fields orc pageId ((selector, v) # rest) results w =
     (case fill_field orc pageId selector v w of
        (ok, w1) \<Rightarrow> fill_fields orc pageId rest (obj_set results selector (JBool ok)) w1)"

definition fillForm :: "Oracle \<Rightarrow> string \<Rightarrow> jsval \<Rightarrow> World \<Rightarrow> AutomationResult \<times> World" where
  "fillForm orc pageId formData w0 =
     (let w = record_event (Drv (FillForm pageId formData)) w0 in
      if pageId \<notin> set (pages w) then (page_missing pageId, w)
      else
        case object_entries formData of
          Inl m \<Rightarrow> (ar_fail (''Form fill failed: '' @ m), w)
        | Inr entries \<Rightarrow>
            (case fill_fields orc pageId entries [] w of
               (results, w1) \<Rightarrow>
                 (case page_call orc pageId Url w1 of
                    (Inl t, w2) \<Rightarrow> (ar_fail (''Form fill failed: '' @ thrown_message t), w2)
                  | (Inr url, w2) \<Rightarrow>
                      (ar_ok (JObj [(''formData'', JObj results), (''currentUrl'', url)]), w2))))"

definition evaluateScript :: "Oracle \<Rightarrow> string \<Rightarrow> script \<Rightarrow> World \<Rightarrow> AutomationResult \<times> World" where
  "evaluateScript orc pageId scr w0 =
     (let w = record_event (Drv (EvaluateScript pageId scr)) w0 in
      if pageId \<notin> set (pages w) then (page_missing pageId, w)
      else
        case page_call orc pageId (Evaluate scr) w of
          (Inl t, w1) \<Rightarrow> (ar_fail (''Script evaluation failed: '' @ thrown_message t), w1)
        | (Inr result, w1) \<Rightarrow> (ar_ok (JObj [(''result'', result)]), w1))"

definition takeScreenshot :: "Oracle \<Rightarrow> string \<Rightarrow> jsval \<Rightarrow> World \<Rightarrow> AutomationResult \<times> World" where
  "takeScreenshot orc pageId fullPage w0 =
     (let w = record_event (Drv (TakeScreenshot pageId fullPage)) w0 in
      if pageId \<notin> set (pages w) then (page_missing pageId, w)
      else
        case page_call orc pageId (Screenshot fullPage) w of
          (Inl t, w1) \<Rightarrow> (ar_fail (''Screenshot failed: '' @ thrown_message t), w1)
        | (Inr shot, w1) \<Rightarrow>
            ((ar_ok (JObj [(''screenshot'', shot)]))\<lparr> ar_screenshot := shot \<rparr>, w1))"

definition getPageContent :: "Oracle \<Rightarrow> string \<Rightarrow> bool \<Rightarrow> World \<Rightarrow> AutomationResult \<times> World" where
  "getPageContent orc pageId includeHTML w0 =
     (let w = record_event (Drv (GetPageContent pageId includeHTML)) w0;
          failed = (\<lambda>t. ar_fail (''Failed to get content: '' @ thrown_message t)) in
      if pageId \<notin> set (pages w) then (page_missing pageId, w)
      else
        case (if includeHTML
              then (case page_call orc pageId Content w of
                      (Inl t, w1) \<Rightarrow> (Inl t, w1)
                    | (Inr html, w1) \<Rightarrow> (Inr [(''html'', html)], w1))
              else (Inr [], w)) of
          (Inl t, w1) \<Rightarrow> (failed t, w1)
        | (Inr content, w1) \<Rightarrow>
            (case page_call orc pageId EvalInnerText w1 of
               (Inl t, w2) \<Rightarrow> (failed t, w2)
             | (Inr text, w2) \<Rightarrow>
                 (case page_call orc pageId EvalMeta w2 of
                    (Inl t, w3) \<Rightarrow> (failed t, w3)
                  | (Inr meta, w3) \<Rightarrow>
                      (case page_call orc pageId EvalLinks w3 of
                         (Inl t, w4) \<Rightarrow> (failed t, w4)
                       | (Inr links, w4) \<Rightarrow>
                           (ar_ok (JObj (content @ [(''text'', text), (''meta'', meta), (''links'', links)])),
                            w4)))))"

section \<open>Page context extraction (BrowserContextService)\<close>

text \<open>
  A snapshot of the page. The fields are filled from page-script results typed \<open>any\<close>, so
  each holds a JavaScript value; an absent field is undefined.
\<close>

record BrowserContext =
  currentUrl :: jsval
  pageTitle :: jsval
  domain :: jsval
  protocol :: jsval
  pageContent :: jsval
  contentSummary :: jsval
  clickableElements :: jsval
  formFields :: jsval
  links :: jsval
  buttons :: jsval
  inputs :: jsval
  screenshot :: jsval
  viewportSize :: jsval
  scrollPosition :: jsval
  canGoBack :: jsval
  canGoForward :: jsval
  navigationHistory :: jsval
  error :: jsval
  lastActionError :: jsval
  timestamp :: int
  loadTime :: "int option"

record BrowserContextOptions =
  includeScreenshot :: "bool option"
  includeFullContent :: "bool option"
  includeInvisibleElements :: "bool option"
  maxContentLength :: "nat option"
  maxElementsPerType :: "nat option"

definition no_options :: BrowserContextOptions where
  \<comment> \<open>the default \<open>options = {}\<close>\<close>
  "no_options = \<lparr> includeScreenshot = None, includeFullContent = None,
     includeInvisibleElements = None, maxContentLength = None, maxElementsPerType = None \<rparr>"

text \<open>
  The service receives its driver through the constructor. What it uses of it is kept
  abstract here: a driver method returns a result or rejects with an \<open>Error\<close>, and changes
  a state of any type. PuppeteerManager is the instance \<open>puppeteer\<close> below.
\<close>

record 'w Deps =
  d_evaluateScript :: "string \<Rightarrow> script \<Rightarrow> 'w \<Rightarrow> AutomationResult res \<times> 'w"
  d_getPageContent :: "string \<Rightarrow> bool \<Rightarrow> 'w \<Rightarrow> AutomationResult res \<times> 'w"
  d_takeScreenshot :: "string \<Rightarrow> jsval \<Rightarrow> 'w \<Rightarrow> AutomationResult res \<times> 'w"
  d_now :: "'w \<Rightarrow> int \<times> 'w"

definition returns :: "('w \<Rightarrow> 'a \<times> 'w) \<Rightarrow> 'w \<Rightarrow> 'a res \<times> 'w" where
  \<comment> \<open>a step that cannot throw\<close>
  "returns f w = (case f w of (a, w1) \<Rightarrow> (Inr a, w1))"

definition puppeteer :: "Oracle \<Rightarrow> World Deps" where
  "puppeteer orc =
     \<lparr> d_evaluateScript = (\<lambda>pageId scr. returns (evaluateScript orc pageId scr)),
       d_getPageContent = (\<lambda>pageId html. returns (getPageContent orc pageId html)),
       d_takeScreenshot = (\<lambda>pageId fullPage. returns (takeScreenshot orc pageId fullPage)),
       d_now = date_now orc \<rparr>"

text \<open>Sequencing inside a \<open>try\<close> block: the first step that throws ends the block.\<close>

definition bind_res ::
  "('w \<Rightarrow> 'a res \<times> 'w) \<Rightarrow> ('a \<Rightarrow> 'w \<Rightarrow> 'b res \<times> 'w) \<Rightarrow> 'w \<Rightarrow> 'b res \<times> 'w" where
  "bind_res m f w = (case m w of (Inl e, w1) \<Rightarrow> (Inl e, w1) | (Inr a, w1) \<Rightarrow> f a w1)"

definition pure_res :: "'a res \<Rightarrow> 'w \<Rightarrow> 'a res \<times> 'w" where
  "pure_res r w = (r, w)"

definition getBasicPageInfo :: "'w Deps \<Rightarrow> string \<Rightarrow> 'w \<Rightarrow> jsval res \<times> 'w" where
  "getBasicPageInfo deps pageId =
     bind_res (d_evaluateScript deps pageId BasicPageInfoScript) (\<lambda>result.
       pure_res (Inr (if ar_success result then ar_data result
                      else JObj [(''url'', JStr ''unknown''), (''title'', JStr ''Unknown''),
                                 (''domain'', JStr ''unknown''), (''protocol'', JStr ''unknown'')])))"

definition cap_or :: "nat option \<Rightarrow> nat \<Rightarrow> string" where
  \<comment> \<open>\<open>${options.maxElementsPerType || d}\<close>\<close>
  "cap_or n d = (case n of None \<Rightarrow> digits d | Some k \<Rightarrow> if k = 0 then digits d else digits k)"

definition extractInteractiveElements ::
  "'w Deps \<Rightarrow> string \<Rightarrow> BrowserContextOptions \<Rightarrow> 'w \<Rightarrow> jsval res \<times> 'w" where
  "extractInteractiveElements deps pageId options =
     bind_res (d_evaluateScript deps pageId
                 (InteractiveElementsScript
                    (if includeInvisibleElements options = Some True then ''true'' else ''el.isVisible'')
                    (cap_or (maxElementsPerType options) 20)
                    (cap_or (maxElementsPerType options) 30))) (\<lambda>result.
       pure_res (Inr (if ar_success result then ar_data result
                      else JObj [(''clickable'', JArr []), (''forms'', JArr []), (''links'', JArr []),
                                 (''buttons'', JArr []), (''inputs'', JArr [])])))"

definition getNavigationState :: "'w Deps \<Rightarrow> string \<Rightarrow> 'w \<Rightarrow> jsval res \<times> 'w" where
  "getNavigationState deps pageId =
     bind_res (d_evaluateScript deps pageId NavigationStateScript) (\<lambda>result.
       pure_res (Inr (if ar_success result then ar_data result
                      else JObj [(''canGoBack'', JBool False), (''canGoForward'', JBool False),
                                 (''history'', JArr [])])))"

definition getViewportInfo :: "'w Deps \<Rightarrow> string \<Rightarrow> 'w \<Rightarrow> jsval res \<times> 'w" where
  "getViewportInfo deps pageId =
     bind_res (d_evaluateScript deps pageId ViewportInfoScript) (\<lambda>result.
       pure_res (Inr (if ar_success result then ar_data result
                      else JObj [(''viewport'', JObj [(''width'', JNum 1366), (''height'', JNum 768)]),
                                 (''scroll'', JObj [(''x'', JNum 0), (''y'', JNum 0)])])))"

text \<open>
  \<open>createContentSummary\<close> on whatever value the page text is: a string is summarised as
  above; another value with \<open>length\<close> 0 counts as empty, and any other has no \<open>replace\<close>.
\<close>

definition contentSummaryOf :: "jsval \<Rightarrow> nat option \<Rightarrow> jsval res" where
  "contentSummaryOf content maxLength =
     (if \<not> truthy content then Inr (JStr ''No content available'')
      else case content of
             JStr s \<Rightarrow> Inr (JStr (createContentSummary s maxLength))
           | _ \<Rightarrow> if js_get_opt content ''length'' = JNum 0
                  then Inr (JStr ''No content available'')
                  else Inl ''content.replace is not a function'')"

definition takeScreenshotIfAsked ::
  "'w Deps \<Rightarrow> string \<Rightarrow> BrowserContextOptions \<Rightarrow> 'w \<Rightarrow> jsval res \<times> 'w" where
  "takeScreenshotIfAsked deps pageId options =
     (if includeScreenshot options = Some True
      then bind_res (d_takeScreenshot deps pageId (JBool False)) (\<lambda>shot.
             pure_res (Inr (if ar_success shot then ar_screenshot shot else JUndefined)))
      else pure_res (Inr JUndefined))"

text \<open>The \<open>try\<close> block of \<open>extractContext\<close>.\<close>

definition extractContext_try ::
  "'w Deps \<Rightarrow> string \<Rightarrow> BrowserContextOptions \<Rightarrow> 'w \<Rightarrow> BrowserContext res \<times> 'w" where
  "extractContext_try deps pageId options =
     bind_res (returns (d_now deps)) (\<lambda>startTime.
     bind_res (getBasicPageInfo deps pageId) (\<lambda>pageInfo.
     bind_res (d_getPageContent deps pageId False) (\<lambda>contentResult.
     bind_res (extractInteractiveElements deps pageId options) (\<lambda>elements.
     bind_res (getNavigationState deps pageId) (\<lambda>navigationState.
     bind_res (getViewportInfo deps pageId) (\<lambda>viewportInfo.
     bind_res (takeScreenshotIfAsked deps pageId options) (\<lambda>shot.
     bind_res (pure_res (js_get pageInfo ''url'')) (\<lambda>url.
     bind_res (pure_res (contentSummaryOf
                 (if ar_success contentResult
                  then js_or (js_get_opt (ar_data contentResult) ''text'') (JStr [])
                  else JStr [])
                 (maxContentLength options))) (\<lambda>summary.
     bind_res (pure_res (js_get elements ''clickable'')) (\<lambda>clickable.
     bind_res (pure_res (js_get viewportInfo ''viewport'')) (\<lambda>viewport.
     bind_res (pure_res (js_get navigationState ''canGoBack'')) (\<lambda>goBack.
     bind_res (returns (d_now deps)) (\<lambda>stamp.
     bind_res (returns (d_now deps)) (\<lambda>finish.
       pure_res (Inr
         \<lparr> currentUrl = url,
           pageTitle = js_get_opt pageInfo ''title'',
           domain = js_get_opt pageInfo ''domain'',
           protocol = js_get_opt pageInfo ''protocol'',
           pageContent =
             (if ar_success contentResult
              then js_or (js_get_opt (ar_data contentResult) ''text'') (JStr [])
              else JStr []),
           contentSummary = summary,
           clickableElements = clickable,
           formFields = js_get_opt elements ''forms'',
           links = js_get_opt elements ''links'',
           buttons = js_get_opt elements ''buttons'',
           inputs = js_get_opt elements ''inputs'',
           screenshot = shot,
           viewportSize = viewport,
           scrollPosition = js_get_opt viewportInfo ''scroll'',
           canGoBack = goBack,
           canGoForward = js_get_opt navigationState ''canGoForward'',
           navigationHistory = js_get_opt navigationState ''history'',
           error = JUndefined,
           lastActionError = JUndefined,
           timestamp = stamp,
           loadTime = Some (finish - startTime) \<rparr>)))))))))))))))"

definition minimalContext :: "string \<Rightarrow> int \<Rightarrow> BrowserContext" where
  \<comment> \<open>the snapshot the \<open>catch\<close> block returns\<close>
  "minimalContext msg now =
     \<lparr> currentUrl = JStr ''unknown'',
       pageTitle = JStr ''Error'',
       domain = JStr ''unknown'',
       protocol = JStr ''unknown'',
       pageContent = JStr [],
       contentSummary = JUndefined,
       clickableElements = JArr [],
       formFields = JArr [],
       links = JArr [],
       buttons = JArr [],
       inputs = JArr [],
       screenshot = JUndefined,
       viewportSize = JObj [(''width'', JNum 0), (''height'', JNum 0)],
       scrollPosition = JObj [(''x'', JNum 0), (''y'', JNum 0)],
       canGoBack = JBool False,
       canGoForward = JBool False,
       navigationHistory = JArr [],
       error = JStr msg,
       lastActionError = JUndefined,
       timestamp = now,
       loadTime = None \<rparr>"

text \<open>
  \<open>extractContext\<close>: the \<open>try\<close> block, and the \<open>catch\<close> block when it throws. The result
  type keeps room for an exception leaving the function.
\<close>

definition extractContext ::
  "'w Deps \<Rightarrow> string \<Rightarrow> BrowserContextOptions \<Rightarrow> 'w \<Rightarrow> BrowserContext res \<times> 'w" where
  "extractContext deps pageId options w =
     (case extractContext_try deps pageId options w of
        (Inr context, w1) \<Rightarrow> (Inr context, w1)
      | (Inl msg, w1) \<Rightarrow> (case d_now deps w1 of (now, w2) \<Rightarrow> (Inr (minimalContext msg now), w2)))"

section \<open>The context manager (BrowserContextManager)\<close>

record BrowserContextManager =
  currentContext :: "BrowserContext option"
  contextHistory :: "BrowserContext list"

definition maxHistorySize :: nat where
  "maxHistorySize = 10"

definition cm_updateContext :: "BrowserContext \<Rightarrow> BrowserContextManager \<Rightarrow> BrowserContextManager" where
  \<comment> \<open>BrowserContextManager.updateContext\<close>
  "cm_updateContext context m =
     (case currentContext m of
        None \<Rightarrow> m\<lparr> currentContext := Some context \<rparr>
      | Some old \<Rightarrow>
          (let pushed = contextHistory m @ [old] in
           \<lparr> currentContext = Some context,
             contextHistory = (if maxHistorySize < length pushed then tl pushed else pushed) \<rparr>))"

fun map_res :: "('a \<Rightarrow> 'b res) \<Rightarrow> 'a list \<Rightarrow> 'b list res" where
  \<comment> \<open>\<open>xs.map(f)\<close> where \<open>f\<close> may throw\<close>
  "map_res f [] = Inr []"
| "map_res f (x # xs) =
     (case f x of
        Inl e \<Rightarrow> Inl e
      | Inr y \<Rightarrow> (case map_res f xs of Inl e \<Rightarrow> Inl e | Inr ys \<Rightarrow> Inr (y # ys)))"

definition listPart :: "string \<Rightarrow> string \<Rightarrow> (jsval \<Rightarrow> string res) \<Rightarrow> jsval \<Rightarrow> nat \<Rightarrow> string list res" where
  \<comment> \<open>one of the three element lines of the summary, for \<open>v = ctx.field\<close>:
      \<open>if (v && v.length > 0) parts.push(label + v.slice(0, max).map(f).join(', ') + ...)\<close>.
      A non-empty string has \<open>slice\<close> but its slice has no \<open>map\<close>; an object with a
      positive \<open>length\<close> has no \<open>slice\<close>.\<close>
  "listPart label field f v maxN =
     (if \<not> truthy v \<or> \<not> js_gt (js_get_opt v ''length'') 0 then Inr []
      else case v of
             JArr xs \<Rightarrow>
               (case map_res f (take maxN xs) of
                  Inl e \<Rightarrow> Inl e
                | Inr shown \<Rightarrow>
                    Inr [label @ join_with '', '' shown @ (if maxN < length xs then ''...'' else [])])
           | JStr str \<Rightarrow> Inl (''ctx.'' @ field @ ''.slice(...).map is not a function'')
           | _ \<Rightarrow> Inl (''ctx.'' @ field @ ''.slice is not a function''))"

definition buttonText :: "jsval \<Rightarrow> string res" where
  \<comment> \<open>\<open>btn => `"${btn.text || btn.selector}"`\<close>\<close>
  "buttonText btn =
     (case js_get btn ''text'' of
        Inl e \<Rightarrow> Inl e
      | Inr t \<Rightarrow> Inr ([CHR 0x22] @ to_str (js_or t (js_get_opt btn ''selector'')) @ [CHR 0x22]))"

definition linkText :: "jsval \<Rightarrow> string res" where
  \<comment> \<open>\<open>link => `"${link.text}" (${link.href})`\<close>\<close>
  "linkText link =
     (case js_get link ''text'' of
        Inl e \<Rightarrow> Inl e
      | Inr t \<Rightarrow> Inr ([CHR 0x22] @ to_str t @ [CHR 0x22] @ '' ('' @ to_str (js_get_opt link ''href'') @ '')''))"

definition fieldText :: "jsval \<Rightarrow> string res" where
  "fieldText field =
     (case js_get field ''type'' of
        Inl e \<Rightarrow> Inl e
      | Inr t \<Rightarrow>
          Inr (to_str t
               @ (if truthy (js_get_opt field ''label'')
                  then '' '' @ [CHR 0x22] @ to_str (js_get_opt field ''label'') @ [CHR 0x22] else [])
               @ (if truthy (js_get_opt field ''placeholder'')
                  then '' ('' @ to_str (js_get_opt field ''placeholder'') @ '')'' else [])))"

definition contentPart :: "BrowserContext \<Rightarrow> BrowserContextOptions \<Rightarrow> string list res" where
  "contentPart ctx options =
     (if truthy (contentSummary ctx) then Inr [''Content: '' @ to_str (contentSummary ctx)]
      else if truthy (pageContent ctx) \<and> includeFullContent options \<noteq> Some False
      then
        (let maxLength = (case maxContentLength options of
                            None \<Rightarrow> 500 | Some n \<Rightarrow> if n = 0 then 500 else n) in
         if js_gt (js_get_opt (pageContent ctx) ''length'') (int maxLength)
         then (case pageContent ctx of
                 JStr s \<Rightarrow> Inr [''Content: '' @ take maxLength s @ ''...'']
               | _ \<Rightarrow> Inl ''ctx.pageContent.substring is not a function'')
         else Inr [''Content: '' @ to_str (pageContent ctx)])
      else Inr [])"

definition cm_createContextSummary :: "BrowserContextManager \<Rightarrow> BrowserContextOptions \<Rightarrow> string res" where
  \<comment> \<open>BrowserContextManager.createContextSummary\<close>
  "cm_createContextSummary m options =
     (case currentContext m of
        None \<Rightarrow> Inr ''No browser context available.''
      | Some ctx \<Rightarrow>
          (let maxN = (case maxElementsPerType options of
                         None \<Rightarrow> 5 | Some n \<Rightarrow> if n = 0 then 5 else n);
               head = [''Current Page: '' @ to_str (js_or (pageTitle ctx) (JStr ''Untitled'')),
                       ''URL: '' @ to_str (currentUrl ctx),
                       ''Domain: '' @ to_str (domain ctx)];
               nav = (if truthy (canGoBack ctx) \<or> truthy (canGoForward ctx)
                      then [''Navigation: '' @ join_with '', ''
                              ((if truthy (canGoBack ctx) then [''can go back''] else [])
                               @ (if truthy (canGoForward ctx) then [''can go forward''] else []))]
                      else []) in
           case contentPart ctx options of
             Inl e \<Rightarrow> Inl e
           | Inr content \<Rightarrow>
               (case listPart ''Buttons: '' ''buttons'' buttonText (buttons ctx) maxN of
                  Inl e \<Rightarrow> Inl e
                | Inr bs \<Rightarrow>
                    (case listPart ''Links: '' ''links'' linkText (links ctx) maxN of
                       Inl e \<Rightarrow> Inl e
                     | Inr ls \<Rightarrow>
                         (case listPart ''Form Fields: '' ''formFields'' fieldText (formFields ctx) maxN of
                            Inl e \<Rightarrow> Inl e
                          | Inr fs \<Rightarrow>
                              Inr (join_with [CHR 0x0A]
                                     (head @ nav @ content @ bs @ ls @ fs
                                      @ (if truthy (lastActionError ctx)
                                         then [''Last Error: '' @ to_str (lastActionError ctx)]
                                         else []))))))))"

section \<open>The tool catalog and the tool executor (BrowserToolExecutor)\<close>

datatype ToolSafetyLevel = SAFE | MODERATE | DANGEROUS

fun level_value :: "ToolSafetyLevel \<Rightarrow> string" where
  \<comment> \<open>the enum's string values\<close>
  "level_value SAFE = ''safe''"
| "level_value MODERATE = ''moderate''"
| "level_value DANGEROUS = ''dangerous''"

text \<open>
  The safety table \<open>TOOL_SAFETY_LEVELS\<close>: the eleven properties of the object literal.
\<close>

definition TOOL_SAFETY_LEVELS :: "(string \<times> ToolSafetyLevel) list" where
  "TOOL_SAFETY_LEVELS =
     [(''navigate'', SAFE),
      (''screenshot'', SAFE),
      (''extract_text'', SAFE),
      (''extract_links'', SAFE),
      (''get_page_info'', SAFE),
      (''wait_for_element'', SAFE),
      (''click'', MODERATE),
      (''type'', MODERATE),
      (''scroll'', MODERATE),
      (''fill_form'', DANGEROUS),
      (''evaluate_script'', DANGEROUS)]"

text \<open>
  The table is a plain object, so the lookup \<open>TOOL_SAFETY_LEVELS[name]\<close> also finds, under
  a name that is not one of its own, what it inherits from \<open>Object.prototype\<close>: eleven
  built-in functions and, under \<open>__proto__\<close>, the prototype object itself. Each of them is
  listed here with the string it converts to, which is what a template string prints and
  what \<open><=\<close> compares when the other operand is a string.
\<close>

definition object_prototype_members :: "(string \<times> string) list" where
  "object_prototype_members =
     [(''constructor'', ''function Object() { [native code] }''),
      (''__defineGetter__'', ''function __defineGetter__() { [native code] }''),
      (''__defineSetter__'', ''function __defineSetter__() { [native code] }''),
      (''hasOwnProperty'', ''function hasOwnProperty() { [native code] }''),
      (''__lookupGetter__'', ''function __lookupGetter__() { [native code] }''),
      (''__lookupSetter__'', ''function __lookupSetter__() { [native code] }''),
      (''isPrototypeOf'', ''function isPrototypeOf() { [native code] }''),
      (''propertyIsEnumerable'', ''function propertyIsEnumerable() { [native code] }''),
      (''toString'', ''function toString() { [native code] }''),
      (''valueOf'', ''function valueOf() { [native code] }''),
      (''__proto__'', ''[object Object]''),
      (''toLocaleString'', ''function toLocaleString() { [native code] }'')]"

datatype resolved_level =
    Level ToolSafetyLevel
  | Inherited string
    \<comment> \<open>a member inherited from \<open>Object.prototype\<close>, by the string it converts to\<close>

definition safetyOf :: "string \<Rightarrow> resolved_level" where
  \<comment> \<open>\<open>TOOL_SAFETY_LEVELS[toolCall.name] || ToolSafetyLevel.MODERATE\<close>: an own entry and an
      inherited member are both truthy, so the default is reached by the other names only\<close>
  "safetyOf name =
     (case map_of TOOL_SAFETY_LEVELS name of
        Some l \<Rightarrow> Level l
      | None \<Rightarrow>
          (case map_of object_prototype_members name of
             Some s \<Rightarrow> Inherited s
           | None \<Rightarrow> Level MODERATE))"

fun level_text :: "resolved_level \<Rightarrow> string" where
  \<comment> \<open>the string conversion of what the lookup gave\<close>
  "level_text (Level l) = level_value l"
| "level_text (Inherited s) = s"

record ToolExecutionOptions =
  teo_pageId :: string
  teo_autoConfirm :: "bool option"
  teo_safetyLevel :: "ToolSafetyLevel option"
  teo_updateContext :: "bool option"

record BrowserToolResult =
  tr_success :: bool
  tr_data :: jsval
  tr_error :: "string option"
  tr_screenshot :: jsval
  tr_message :: "string option"

definition failed :: "string \<Rightarrow> BrowserToolResult" where
  \<comment> \<open>\<open>{ success: false, error: m }\<close>\<close>
  "failed m = \<lparr> tr_success = False, tr_data = JUndefined, tr_error = Some m,
                tr_screenshot = JUndefined, tr_message = None \<rparr>"

definition outcome :: "AutomationResult \<Rightarrow> string \<Rightarrow> BrowserToolResult" where
  \<comment> \<open>\<open>{ success: result.success, error: result.error, message: result.success ? m : undefined }\<close>\<close>
  "outcome result m =
     \<lparr> tr_success = ar_success result, tr_data = JUndefined, tr_error = ar_error result,
       tr_screenshot = JUndefined,
       tr_message = (if ar_success result then Some m else None) \<rparr>"

definition outcome_with_data :: "AutomationResult \<Rightarrow> string \<Rightarrow> BrowserToolResult" where
  \<comment> \<open>the same with \<open>data: result.success ? result.data : undefined\<close>\<close>
  "outcome_with_data result m =
     (outcome result m)\<lparr> tr_data := (if ar_success result then ar_data result else JUndefined) \<rparr>"

text \<open>
  The gate. \<open>safetyLevel <= options.safetyLevel\<close> compares the two operands' strings,
  as JavaScript compares strings: code unit by code unit.
\<close>

definition canExecuteTool :: "string \<Rightarrow> resolved_level \<Rightarrow> ToolExecutionOptions \<Rightarrow> bool" where
  "canExecuteTool toolName safetyLevel options =
     (if teo_autoConfirm options = Some True then True
      else safetyLevel = Level SAFE \<or>
           (case teo_safetyLevel options of
              None \<Rightarrow> False
            | Some granted \<Rightarrow> level_text safetyLevel \<le> level_value granted))"

definition arg :: "(string \<times> jsval) list \<Rightarrow> string \<Rightarrow> jsval" where
  \<comment> \<open>one name of a destructuring \<open>const { k } = args\<close>\<close>
  "arg args k = obj_get args k"

definition executeNavigate :: "Oracle \<Rightarrow> (string \<times> jsval) list \<Rightarrow> string \<Rightarrow> World \<Rightarrow> BrowserToolResult \<times> World" where
  "executeNavigate orc args pageId w =
     (let url = arg args ''url'' in
      if \<not> truthy url then (failed ''URL is required for navigation'', w)
      else case navigateToUrl orc pageId url w of
             (result, w1) \<Rightarrow> (outcome result (''Navigated to '' @ to_str url), w1))"

definition executeClick :: "Oracle \<Rightarrow> (string \<times> jsval) list \<Rightarrow> string \<Rightarrow> World \<Rightarrow> BrowserToolResult \<times> World" where
  "executeClick orc args pageId w =
     (let selector = arg args ''selector''; description = arg args ''description'' in
      if \<not> truthy selector then (failed ''Selector is required for click action'', w)
      else case clickElement orc pageId selector w of
             (result, w1) \<Rightarrow> (outcome result (''Clicked '' @ to_str (js_or description selector)), w1))"

definition executeType :: "Oracle \<Rightarrow> (string \<times> jsval) list \<Rightarrow> string \<Rightarrow> World \<Rightarrow> BrowserToolResult \<times> World" where
  "executeType orc args pageId w =
     (let selector = arg args ''selector''; text = arg args ''text'' in
      if \<not> truthy selector \<or> \<not> truthy text
      then (failed ''Selector and text are required for type action'', w)
      else case fillForm orc pageId (JObj (obj_set [] (to_str selector) text)) w of
             (result, w1) \<Rightarrow>
               (outcome result (''Typed '' @ [CHR 0x22] @ to_str text @ [CHR 0x22] @ '' into '' @ to_str selector),
                w1))"

definition executeScroll :: "Oracle \<Rightarrow> (string \<times> jsval) list \<Rightarrow> string \<Rightarrow> World \<Rightarrow> BrowserToolResult \<times> World" where
  "executeScroll orc args pageId w =
     (let direction = arg args ''direction'';
          amount = with_default (arg args ''amount'') (JNum 500);
          scroll = (\<lambda>text.
            case evaluateScript orc pageId (ScriptText (JStr text)) w of
              (result, w1) \<Rightarrow>
                (outcome result (''Scrolled '' @ to_str direction @ '' by '' @ to_str amount @ ''px''), w1)) in
      if \<not> truthy direction then (failed ''Direction is required for scroll action'', w)
      else if direction = JStr ''up'' then scroll (''window.scrollBy(0, -'' @ to_str amount @ '')'')
      else if direction = JStr ''down'' then scroll (''window.scrollBy(0, '' @ to_str amount @ '')'')
      else if direction = JStr ''left'' then scroll (''window.scrollBy(-'' @ to_str amount @ '', 0)'')
      else if direction = JStr ''right'' then scroll (''window.scrollBy('' @ to_str amount @ '', 0)'')
      else (failed (''Invalid scroll direction: '' @ to_str direction), w))"

definition executeScreenshot :: "Oracle \<Rightarrow> (string \<times> jsval) list \<Rightarrow> string \<Rightarrow> World \<Rightarrow> BrowserToolResult \<times> World" where
  "executeScreenshot orc args pageId w =
     (let fullPage = with_default (arg args ''fullPage'') (JBool False) in
      case takeScreenshot orc pageId fullPage w of
        (result, w1) \<Rightarrow>
          ((outcome result ''Screenshot captured'')\<lparr> tr_screenshot := ar_screenshot result \<rparr>, w1))"

definition executeExtractText :: "Oracle \<Rightarrow> (string \<times> jsval) list \<Rightarrow> string \<Rightarrow> World \<Rightarrow> BrowserToolResult \<times> World" where
  "executeExtractText orc args pageId w =
     (let selector = arg args ''selector'';
          scr = (if truthy selector then ExtractTextScript (to_str selector)
                 else ScriptText (JStr (''document.body.textContent?.trim() || '' @ [CHR 0x22, CHR 0x22]))) in
      case evaluateScript orc pageId scr w of
        (result, w1) \<Rightarrow>
          (outcome_with_data result
             (''Extracted text'' @ (if truthy selector then '' from '' @ to_str selector else [])), w1))"

definition to_lower :: "string \<Rightarrow> string" where
  "to_lower s = map (\<lambda>c. if 65 \<le> (of_char c :: nat) \<and> (of_char c :: nat) \<le> 90
                          then char_of ((of_char c :: nat) + 32) else c) s"

text \<open>\<open>filter.toLowerCase()\<close> exists on strings only: another truthy filter throws.\<close>

definition executeExtractLinks ::
  "Oracle \<Rightarrow> (string \<times> jsval) list \<Rightarrow> string \<Rightarrow> World \<Rightarrow> BrowserToolResult res \<times> World" where
  "executeExtractLinks orc args pageId w =
     (let filter = arg args ''filter'';
          run = (\<lambda>scr.
            case evaluateScript orc pageId scr w of
              (result, w1) \<Rightarrow>
                (Inr (outcome_with_data result
                        (''Extracted '' @ to_str (js_or (js_get_opt (ar_data result) ''length'') (JNum 0))
                         @ '' links'')), w1)) in
      if \<not> truthy filter then run (ExtractLinksScript None)
      else case filter of
             JStr f \<Rightarrow> run (ExtractLinksScript (Some (to_lower f)))
           | _ \<Rightarrow> (Inl ''filter.toLowerCase is not a function'', w))"

definition executeWaitForElement :: "Oracle \<Rightarrow> (string \<times> jsval) list \<Rightarrow> string \<Rightarrow> World \<Rightarrow> BrowserToolResult \<times> World" where
  "executeWaitForElement orc args pageId w =
     (let selector = arg args ''selector'';
          timeout = with_default (arg args ''timeout'') (JNum 5000) in
      if \<not> truthy selector then (failed ''Selector is required for wait action'', w)
      else case evaluateScript orc pageId (WaitForElementScript (to_str selector) (to_str timeout)) w of
             (result, w1) \<Rightarrow>
               ((outcome result [])\<lparr> tr_message :=
                   Some (if ar_success result then ''Element '' @ to_str selector @ '' found''
                         else ''Element '' @ to_str selector @ '' not found within '' @ to_str timeout @ ''ms'') \<rparr>,
                w1))"

text \<open>
  \<open>get_page_info\<close> reads the snapshot's fields; \<open>context.buttons.length\<close> and its two
  siblings throw when the list is undefined, which the handler's own \<open>catch\<close> reports.
\<close>

definition executeGetPageInfo :: "Oracle \<Rightarrow> (string \<times> jsval) list \<Rightarrow> string \<Rightarrow> World \<Rightarrow> BrowserToolResult \<times> World" where
  "executeGetPageInfo orc args pageId w =
     (case extractContext (puppeteer orc) pageId
             (no_options\<lparr> includeScreenshot := Some False, maxContentLength := Some 500 \<rparr>) w of
        (Inl e, w1) \<Rightarrow> (failed (''Failed to get page info: '' @ e), w1)
      | (Inr context, w1) \<Rightarrow>
          (case js_get (buttons context) ''length'' of
             Inl e \<Rightarrow> (failed (''Failed to get page info: '' @ e), w1)
           | Inr nb \<Rightarrow>
               (case js_get (links context) ''length'' of
                  Inl e \<Rightarrow> (failed (''Failed to get page info: '' @ e), w1)
                | Inr nl \<Rightarrow>
                    (case js_get (formFields context) ''length'' of
                       Inl e \<Rightarrow> (failed (''Failed to get page info: '' @ e), w1)
                     | Inr nf \<Rightarrow>
                         (\<lparr> tr_success = True,
                            tr_data = JObj [(''url'', currentUrl context), (''title'', pageTitle context),
                                            (''domain'', domain context), (''buttons'', nb),
                                            (''links'', nl), (''formFields'', nf),
                                            (''canGoBack'', canGoBack context),
                                            (''canGoForward'', canGoForward context)],
                            tr_error = None, tr_screenshot = JUndefined,
                            tr_message = Some ''Page information extracted'' \<rparr>, w1)))))"

definition executeFillForm :: "Oracle \<Rightarrow> (string \<times> jsval) list \<Rightarrow> string \<Rightarrow> World \<Rightarrow> BrowserToolResult \<times> World" where
  "executeFillForm orc args pageId w =
     (let fields = arg args ''fields'' in
      if \<not> truthy fields \<or> \<not> js_typeof_object fields
      then (failed ''Fields object is required for form filling'', w)
      else case fillForm orc pageId fields w of
             (result, w1) \<Rightarrow>
               (outcome result (''Filled '' @ digits (object_keys_length fields) @ '' form fields''), w1))"

definition executeEvaluateScript :: "Oracle \<Rightarrow> (string \<times> jsval) list \<Rightarrow> string \<Rightarrow> World \<Rightarrow> BrowserToolResult \<times> World" where
  "executeEvaluateScript orc args pageId w =
     (let scr = arg args ''script'' in
      if \<not> truthy scr then (failed ''Script is required for evaluation'', w)
      else case evaluateScript orc pageId (ScriptText scr) w of
             (result, w1) \<Rightarrow> (outcome_with_data result ''Script executed successfully'', w1))"

definition dispatch :: "Oracle \<Rightarrow> BrowserToolCall \<Rightarrow> string \<Rightarrow> World \<Rightarrow> BrowserToolResult res \<times> World" where
  \<comment> \<open>the \<open>switch (toolCall.name)\<close>\<close>
  "dispatch orc toolCall pageId w =
     (let name = tc_name toolCall; args = tc_arguments toolCall in
      if name = ''navigate'' then returns (executeNavigate orc args pageId) w
      else if name = ''click'' then returns (executeClick orc args pageId) w
      else if name = ''type'' then returns (executeType orc args pageId) w
      else if name = ''scroll'' then returns (executeScroll orc args pageId) w
      else if name = ''screenshot'' then returns (executeScreenshot orc args pageId) w
      else if name = ''extract_text'' then returns (executeExtractText orc args pageId) w
      else if name = ''extract_links'' then executeExtractLinks orc args pageId w
      else if name = ''wait_for_element'' then returns (executeWaitForElement orc args pageId) w
      else if name = ''get_page_info'' then returns (executeGetPageInfo orc args pageId) w
      else if name = ''fill_form'' then returns (executeFillForm orc args pageId) w
      else if name = ''evaluate_script'' then returns (executeEvaluateScript orc args pageId) w
      else (Inr (failed (''Unknown tool: '' @ name)), w))"

record ExecutorState =
  world :: World
  contexts :: BrowserContextManager
    \<comment> \<open>the executor's \<open>contextManager\<close>\<close>

definition ensureReady :: "Oracle \<Rightarrow> World \<Rightarrow> bool \<times> World" where
  \<comment> \<open>\<open>if (!isReady()) { initialized = await initialize(); ... }\<close>\<close>
  "ensureReady orc w = (if isReady w then (True, w) else initialize orc w)"

definition executeTool ::
  "Oracle \<Rightarrow> BrowserToolCall \<Rightarrow> ToolExecutionOptions \<Rightarrow> ExecutorState \<Rightarrow> BrowserToolResult \<times> ExecutorState" where
  "executeTool orc toolCall options st =
     (let safetyLevel = safetyOf (tc_name toolCall) in
      if \<not> canExecuteTool (tc_name toolCall) safetyLevel options
      then ((failed (''Tool '' @ tc_name toolCall @ '' requires '' @ level_text safetyLevel
                     @ '' permission level''))
              \<lparr> tr_message := Some (''Please confirm execution of '' @ tc_name toolCall) \<rparr>, st)
      else
        case ensureReady orc (world st) of
          (False, w1) \<Rightarrow> (failed ''Failed to initialize browser automation'', st\<lparr> world := w1 \<rparr>)
        | (True, w1) \<Rightarrow>
            (case dispatch orc toolCall (teo_pageId options) w1 of
               (Inl e, w2) \<Rightarrow> (failed (''Tool execution failed: '' @ e), st\<lparr> world := w2 \<rparr>)
             | (Inr result, w2) \<Rightarrow>
                 if teo_updateContext options = Some True \<and> tr_success result
                 then
                   (case extractContext (puppeteer orc) (teo_pageId options)
                           (no_options\<lparr> includeScreenshot := Some False, maxContentLength := Some 1000 \<rparr>) w2 of
                      (Inl e, w3) \<Rightarrow> (result, st\<lparr> world := w3 \<rparr>)
                    | (Inr newContext, w3) \<Rightarrow>
                        (result, \<lparr> world = w3, contexts = cm_updateContext newContext (contexts st) \<rparr>))
                 else (result, st\<lparr> world := w2 \<rparr>)))"

definition ex_updateContext ::
  "Oracle \<Rightarrow> string \<Rightarrow> BrowserContextOptions \<Rightarrow> ExecutorState \<Rightarrow> BrowserContext res \<times> ExecutorState" where
  \<comment> \<open>BrowserToolExecutor.updateContext\<close>
  "ex_updateContext orc pageId options st =
     (case extractContext (puppeteer orc) pageId options (world st) of
        (Inl e, w1) \<Rightarrow> (Inl e, st\<lparr> world := w1 \<rparr>)
      | (Inr context, w1) \<Rightarrow>
          (Inr context, \<lparr> world = w1, contexts = cm_updateContext context (contexts st) \<rparr>))"

definition getContextSummary :: "ExecutorState \<Rightarrow> BrowserContextOptions \<Rightarrow> string res" where
  "getContextSummary st options = cm_createContextSummary (contexts st) options"

section \<open>The orchestrator (BrowserAgent)\<close>

record AgentConversation =
  conv_id :: string
  conv_messages :: "AIMessage list"
  conv_currentUrl :: jsval
  conv_pageId :: string
  conv_createdAt :: int
  conv_lastActivity :: int

record AgentExecutionOptions =
  aeo_serviceType :: AIServiceType
  aeo_pageId :: string
  aeo_autoConfirm :: "bool option"
  aeo_safetyLevel :: "ToolSafetyLevel option"
  aeo_maxIterations :: "nat option"
  aeo_includeScreenshot :: "bool option"

record AgentResponse =
  resp_message :: string
  resp_toolResults :: "BrowserToolResult list"
  resp_contextUpdate :: "string option"
  resp_screenshot :: jsval

text \<open>
  \<open>this.conversations\<close>, a \<open>Map\<close>: its entries in insertion order. \<open>set\<close> on a present key
  replaces the value in place, on a new key adds the entry last.
\<close>

type_synonym ConversationStore = "(string \<times> AgentConversation) list"

definition store_get :: "ConversationStore \<Rightarrow> string \<Rightarrow> AgentConversation option" where
  "store_get s k = map_of s k"

definition store_set :: "ConversationStore \<Rightarrow> string \<Rightarrow> AgentConversation \<Rightarrow> ConversationStore" where
  "store_set s k c =
     (if k \<in> fst ` set s then map (\<lambda>(k', c'). if k' = k then (k', c) else (k', c')) s
      else s @ [(k, c)])"

definition store_delete :: "ConversationStore \<Rightarrow> string \<Rightarrow> ConversationStore" where
  "store_delete s k = filter (\<lambda>(k', c'). k' \<noteq> k) s"

record AgentState =
  executor :: ExecutorState
  conversations :: ConversationStore
  asked :: "provider_call list"
    \<comment> \<open>the calls made to AI backends so far, oldest first\<close>

definition getConversation :: "AgentState \<Rightarrow> string \<Rightarrow> AgentConversation option" where
  "getConversation st k = store_get (conversations st) k"

definition clearConversation :: "string \<Rightarrow> AgentState \<Rightarrow> AgentState" where
  "clearConversation k st = st\<lparr> conversations := store_delete (conversations st) k \<rparr>"

definition maxAge :: int where
  "maxAge = 24 * 60 * 60 * 1000"

text \<open>
  \<open>getActiveConversations\<close>, at the time \<open>now\<close> that \<open>Date.now()\<close> gives: the values of the
  map, those active within 24 hours, sorted by last activity, latest first. The sort is
  stable: \<open>sort_key\<close> keeps the order of equal keys.
\<close>

definition getActiveConversations :: "int \<Rightarrow> AgentState \<Rightarrow> AgentConversation list" where
  "getActiveConversations now st =
     sort_key (\<lambda>c. - conv_lastActivity c)
       (filter (\<lambda>c. now - conv_lastActivity c < maxAge) (map snd (conversations st)))"

definition cleanupOldConversations :: "int \<Rightarrow> AgentState \<Rightarrow> AgentState" where
  "cleanupOldConversations now st =
     st\<lparr> conversations := filter (\<lambda>(k, c). \<not> maxAge < now - conv_lastActivity c) (conversations st) \<rparr>"

text \<open>Steps of the agent: on the agent's state, and possibly throwing.\<close>

definition on_world :: "(World \<Rightarrow> 'a \<times> World) \<Rightarrow> AgentState \<Rightarrow> 'a \<times> AgentState" where
  "on_world f st =
     (case f (world (executor st)) of
        (a, w1) \<Rightarrow> (a, st\<lparr> executor := (executor st)\<lparr> world := w1 \<rparr> \<rparr>))"

definition on_executor :: "(ExecutorState \<Rightarrow> 'a \<times> ExecutorState) \<Rightarrow> AgentState \<Rightarrow> 'a \<times> AgentState" where
  "on_executor f st = (case f (executor st) of (a, e1) \<Rightarrow> (a, st\<lparr> executor := e1 \<rparr>))"

definition now_at :: "Oracle \<Rightarrow> AgentState \<Rightarrow> int \<times> AgentState" where
  \<comment> \<open>\<open>Date.now()\<close>\<close>
  "now_at orc = on_world (date_now orc)"

definition modify_conversation ::
  "string \<Rightarrow> (AgentConversation \<Rightarrow> AgentConversation) \<Rightarrow> AgentState \<Rightarrow> AgentState" where
  \<comment> \<open>a mutation of the conversation object held by the map\<close>
  "modify_conversation k f st =
     st\<lparr> conversations := map (\<lambda>(k', c). if k' = k then (k', f c) else (k', c)) (conversations st) \<rparr>"

definition push_message :: "string \<Rightarrow> AIMessage \<Rightarrow> AgentState \<Rightarrow> AgentState" where
  \<comment> \<open>\<open>conversation.messages.push(m)\<close>\<close>
  "push_message k m = modify_conversation k (\<lambda>c. c\<lparr> conv_messages := conv_messages c @ [m] \<rparr>)"

definition createOrGetConversation ::
  "Oracle \<Rightarrow> string \<Rightarrow> string \<Rightarrow> jsval \<Rightarrow> AgentState \<Rightarrow> AgentConversation \<times> AgentState" where
  "createOrGetConversation orc k pageId initialUrl st =
     (case store_get (conversations st) k of
        Some c \<Rightarrow>
          (case now_at orc st of
             (now, st1) \<Rightarrow>
               (c\<lparr> conv_lastActivity := now \<rparr>,
                modify_conversation k (\<lambda>c. c\<lparr> conv_lastActivity := now \<rparr>) st1))
      | None \<Rightarrow>
          (case now_at orc st of
             (created, st1) \<Rightarrow>
               (case now_at orc st1 of
                  (active, st2) \<Rightarrow>
                    (let c = \<lparr> conv_id = k, conv_messages = [], conv_currentUrl = initialUrl,
                                conv_pageId = pageId, conv_createdAt = created,
                                conv_lastActivity = active \<rparr> in
                     (c, st2\<lparr> conversations := store_set (conversations st2) k c \<rparr>)))))"

definition js_strict_eq :: "jsval \<Rightarrow> jsval \<Rightarrow> bool" where
  \<comment> \<open>\<open>a === b\<close> between values coming from two page reads: primitives by value; two
      objects or arrays are never the same object\<close>
  "js_strict_eq a b = (case a of JObj kvs \<Rightarrow> False | JArr xs \<Rightarrow> False | _ \<Rightarrow> a = b)"

definition hasContextChanged :: "string \<Rightarrow> BrowserContext \<Rightarrow> AgentState \<Rightarrow> bool \<times> AgentState" where
  "hasContextChanged k context st =
     (case store_get (conversations st) k of
        None \<Rightarrow> (False, st)
      | Some c \<Rightarrow>
          if \<not> truthy (conv_currentUrl c) \<or> \<not> js_strict_eq (conv_currentUrl c) (currentUrl context)
          then (True, modify_conversation k (\<lambda>c. c\<lparr> conv_currentUrl := currentUrl context \<rparr>) st)
          else (False, st))"

text \<open>The names of the tool catalog (\<open>BROWSER_TOOLS\<close>), in its order.\<close>

definition BROWSER_TOOLS :: "string list" where
  "BROWSER_TOOLS =
     [''navigate'', ''click'', ''type'', ''scroll'', ''screenshot'', ''extract_text'',
      ''extract_links'', ''wait_for_element'', ''get_page_info'', ''fill_form'', ''evaluate_script'']"

definition getToolsForService :: "AIServiceType \<Rightarrow> string list" where
  \<comment> \<open>the descriptors sent to a backend, each standing for the tool it names\<close>
  "getToolsForService serviceType =
     (case serviceType of OpenAI \<Rightarrow> BROWSER_TOOLS | Claude \<Rightarrow> BROWSER_TOOLS | Gemini \<Rightarrow> [])"

definition provider_call ::
  "Oracle \<Rightarrow> AIServiceType \<Rightarrow> bool \<Rightarrow> AIMessage list \<Rightarrow> string list \<Rightarrow> AgentState \<Rightarrow> AIResponse res \<times> AgentState" where
  \<comment> \<open>\<open>service.sendMessageWithTools(messages, tools)\<close> or \<open>service.sendMessage(messages)\<close>\<close>
  "provider_call orc serviceType withTools messages tools st =
     (provider_reply orc (trace (world (executor st))) (asked st)
        (Asked serviceType withTools messages tools),
      st\<lparr> asked := asked st @ [Asked serviceType withTools messages tools] \<rparr>)"

text \<open>
  Two pieces of text the orchestrator builds are parameters of the model: the system prompt
  made from a snapshot (\<open>createContextualSystemPrompt\<close>, which may throw on a malformed
  snapshot), and \<open>JSON.stringify(data, null, 2)\<close>.
\<close>

record Texts =
  contextualSystemPrompt :: "BrowserContext \<Rightarrow> string res"
  json_stringify :: "jsval \<Rightarrow> string"

definition formatToolResult :: "Texts \<Rightarrow> BrowserToolResult \<Rightarrow> string" where
  "formatToolResult txt result =
     (if \<not> tr_success result
      then ''Error: '' @ (case tr_error result of None \<Rightarrow> ''undefined'' | Some e \<Rightarrow> e)
      else
        (case tr_message result of
           None \<Rightarrow> ''Action completed successfully''
         | Some m \<Rightarrow> if m = [] then ''Action completed successfully'' else m)
        @ (if truthy (tr_data result)
           then [CHR 0x0A] @ ''Result: ''
                @ (case tr_data result of JStr s \<Rightarrow> s | d \<Rightarrow> json_stringify txt d)
           else []))"

definition toolOptions :: "AgentExecutionOptions \<Rightarrow> ToolExecutionOptions" where
  "toolOptions options =
     \<lparr> teo_pageId = aeo_pageId options, teo_autoConfirm = aeo_autoConfirm options,
       teo_safetyLevel = aeo_safetyLevel options, teo_updateContext = Some True \<rparr>"

text \<open>The loop \<open>for (const toolCall of toolCalls)\<close>, pushing each result.\<close>

fun executeToolCalls ::
  "Oracle \<Rightarrow> BrowserToolCall list \<Rightarrow> AgentExecutionOptions \<Rightarrow> ExecutorState
   \<Rightarrow> BrowserToolResult list \<times> ExecutorState" where
  "executeToolCalls orc [] options st = ([], st)"
| "executeToolCalls orc (toolCall # rest) options st =
     (case executeTool orc toolCall (toolOptions options) st of
        (result, st1) \<Rightarrow>
          (case executeToolCalls orc rest options st1 of
             (results, st2) \<Rightarrow> (result # results, st2)))"

definition getFollowUpResponse ::
  "Oracle \<Rightarrow> AIServiceType \<Rightarrow> bool \<Rightarrow> AIMessage list \<Rightarrow> string list \<Rightarrow> AgentState \<Rightarrow> AIResponse \<times> AgentState" where
  "getFollowUpResponse orc serviceType supportsTools messages tools st =
     (case provider_call orc serviceType supportsTools messages
             (if supportsTools then tools else []) st of
        (Inl e, st1) \<Rightarrow> (\<lparr> r_content = ''Actions completed successfully.'', r_toolCalls = None \<rparr>, st1)
      | (Inr response, st1) \<Rightarrow> (response, st1))"

definition messages_of :: "string \<Rightarrow> AgentState \<Rightarrow> AIMessage list" where
  \<comment> \<open>\<open>conversation.messages\<close>\<close>
  "messages_of k st = (case store_get (conversations st) k of None \<Rightarrow> [] | Some c \<Rightarrow> conv_messages c)"

definition toolMessage :: "Texts \<Rightarrow> BrowserToolCall \<Rightarrow> BrowserToolResult \<Rightarrow> int \<Rightarrow> AIMessage" where
  "toolMessage txt toolCall result now =
     \<lparr> m_role = Tool, m_content = formatToolResult txt result, m_timestamp = Some now,
       m_toolCalls = None, m_toolCallId = Some (tc_id toolCall) \<rparr>"

text \<open>
  The loop \<open>for (let i = 0; i < response.toolCalls.length; i++)\<close> that pushes one tool
  message per call. \<open>toolResults[i]\<close> beyond the results is undefined, and
  \<open>formatToolResult\<close> throws on it.
\<close>

fun pushToolMessages ::
  "Oracle \<Rightarrow> Texts \<Rightarrow> string \<Rightarrow> BrowserToolCall list \<Rightarrow> BrowserToolResult list \<Rightarrow> AgentState
   \<Rightarrow> unit res \<times> AgentState" where
  "pushToolMessages orc txt k [] results st = (Inr (), st)"
| "pushToolMessages orc txt k (toolCall # calls) [] st =
     (Inl (''Cannot read properties of undefined (reading '' @ [CHR 0x27] @ ''success'' @ [CHR 0x27] @ '')''), st)"
| "pushToolMessages orc txt k (toolCall # calls) (result # results) st =
     (case now_at orc st of
        (now, st1) \<Rightarrow>
          pushToolMessages orc txt k calls results
            (push_message k (toolMessage txt toolCall result now) st1))"

definition placeholder :: string where
  "placeholder = ''I understand. Let me help you with that.''"

definition errorResponse :: "string \<Rightarrow> AgentResponse" where
  \<comment> \<open>what the \<open>catch\<close> block of \<open>sendMessage\<close> returns\<close>
  "errorResponse e =
     \<lparr> resp_message = ''I encountered an error: '' @ e @ ''. Please try again.'',
       resp_toolResults = [], resp_contextUpdate = None, resp_screenshot = JUndefined \<rparr>"

definition systemMessage :: "string \<Rightarrow> int \<Rightarrow> AIMessage" where
  "systemMessage prompt now =
     \<lparr> m_role = System, m_content = prompt, m_timestamp = Some now,
       m_toolCalls = None, m_toolCallId = None \<rparr>"

definition userMessageAt :: "string \<Rightarrow> int \<Rightarrow> AIMessage" where
  "userMessageAt content now =
     \<lparr> m_role = User, m_content = content, m_timestamp = Some now,
       m_toolCalls = None, m_toolCallId = None \<rparr>"

definition pushSystemMessage ::
  "Oracle \<Rightarrow> string \<Rightarrow> string \<Rightarrow> BrowserContext \<Rightarrow> AgentState \<Rightarrow> unit res \<times> AgentState" where
  \<comment> \<open>\<open>if (conversation.messages.length === 0 || this.hasContextChanged(conversation, context))
        conversation.messages.push({ role: 'system', ... })\<close>\<close>
  "pushSystemMessage orc k prompt context st =
     (if messages_of k st = []
      then (case now_at orc st of
              (now, st1) \<Rightarrow> (Inr (), push_message k (systemMessage prompt now) st1))
      else (case hasContextChanged k context st of
              (True, st1) \<Rightarrow>
                (case now_at orc st1 of
                   (now, st2) \<Rightarrow> (Inr (), push_message k (systemMessage prompt now) st2))
            | (False, st1) \<Rightarrow> (Inr (), st1)))"

definition pushUserMessage :: "Oracle \<Rightarrow> string \<Rightarrow> string \<Rightarrow> AgentState \<Rightarrow> unit res \<times> AgentState" where
  "pushUserMessage orc k userMessage st =
     (case now_at orc st of
        (now, st1) \<Rightarrow> (Inr (), push_message k (userMessageAt userMessage now) st1))"

definition serviceName :: "AIServiceType \<Rightarrow> string" where
  "serviceName serviceType =
     (case serviceType of OpenAI \<Rightarrow> ''openai'' | Gemini \<Rightarrow> ''gemini'' | Claude \<Rightarrow> ''claude'')"

definition firstCall ::
  "Oracle \<Rightarrow> string \<Rightarrow> AgentExecutionOptions \<Rightarrow> AgentState
   \<Rightarrow> (bool \<times> string list \<times> AIResponse) res \<times> AgentState" where
  \<comment> \<open>the service, its tools and the first request\<close>
  "firstCall orc k options st =
     (case service orc (aeo_serviceType options) of
        None \<Rightarrow> (Inl (''AI service '' @ serviceName (aeo_serviceType options) @ '' is not available''), st)
      | Some supportsTools \<Rightarrow>
          (let tools = (if supportsTools then getToolsForService (aeo_serviceType options) else []) in
           case provider_call orc (aeo_serviceType options) (supportsTools \<and> tools \<noteq> [])
                  (messages_of k st) (if supportsTools \<and> tools \<noteq> [] then tools else []) st of
             (Inl e, st1) \<Rightarrow> (Inl e, st1)
           | (Inr response, st1) \<Rightarrow> (Inr (supportsTools, tools, response), st1)))"

text \<open>
  The first part of a turn: the conversation, the snapshot, the system and user messages,
  and the first call to the backend. It gives what the rest of the turn needs: whether the
  service supports tools, the tools, the response and the snapshot.
\<close>

definition openTurn ::
  "Oracle \<Rightarrow> Texts \<Rightarrow> string \<Rightarrow> string \<Rightarrow> AgentExecutionOptions \<Rightarrow> AgentState
   \<Rightarrow> (bool \<times> string list \<times> AIResponse \<times> BrowserContext) res \<times> AgentState" where
  "openTurn orc txt k userMessage options =
     bind_res (returns (createOrGetConversation orc k (aeo_pageId options) JUndefined)) (\<lambda>conversation.
     bind_res (on_executor (ex_updateContext orc (aeo_pageId options)
                              (no_options\<lparr> maxContentLength := Some 2000 \<rparr>))) (\<lambda>context.
     bind_res (pure_res (contextualSystemPrompt txt context)) (\<lambda>prompt.
     bind_res (pushSystemMessage orc k prompt context) (\<lambda>u.
     bind_res (pushUserMessage orc k userMessage) (\<lambda>u.
     bind_res (firstCall orc k options) (\<lambda>(supportsTools, tools, response).
       pure_res (Inr (supportsTools, tools, response, context))))))))"

text \<open>
  The branch taken when the response carries tool calls: run them, push the assistant
  message and the tool messages, ask for a follow-up if some call succeeded, refresh the
  snapshot.
\<close>

definition toolTurn ::
  "Oracle \<Rightarrow> Texts \<Rightarrow> string \<Rightarrow> AgentExecutionOptions \<Rightarrow> bool \<Rightarrow> string list \<Rightarrow> AIResponse
   \<Rightarrow> BrowserToolCall list \<Rightarrow> AgentResponse \<Rightarrow> AgentState \<Rightarrow> AgentResponse res \<times> AgentState" where
  "toolTurn orc txt k options supportsTools tools response toolCalls agentResponse =
     bind_res (returns (on_executor (executeToolCalls orc toolCalls options))) (\<lambda>toolResults.
     bind_res (\<lambda>st. case now_at orc st of
                      (now, st1) \<Rightarrow>
                        (Inr (), push_message k \<lparr> m_role = Assistant, m_content = r_content response,
                                   m_timestamp = Some now, m_toolCalls = Some toolCalls,
                                   m_toolCallId = None \<rparr> st1)) (\<lambda>u.
     bind_res (pushToolMessages orc txt k toolCalls toolResults) (\<lambda>u.
     bind_res (\<lambda>st.
                 if list_ex tr_success toolResults
                 then (case getFollowUpResponse orc (aeo_serviceType options) supportsTools
                              (messages_of k st) tools st of
                         (followUp, st1) \<Rightarrow>
                           (Inr (if r_content followUp \<noteq> [] then r_content followUp
                                 else resp_message agentResponse), st1))
                 else (Inr (resp_message agentResponse), st)) (\<lambda>message.
     bind_res (on_executor (ex_updateContext orc (aeo_pageId options) no_options)) (\<lambda>context.
     bind_res (\<lambda>st. (getContextSummary (executor st) no_options, st)) (\<lambda>contextChange.
       pure_res (Inr (agentResponse\<lparr> resp_message := message, resp_toolResults := toolResults,
                        resp_contextUpdate := (if contextChange \<noteq> [] then Some contextChange else None) \<rparr>))))))))"

definition sendMessage_try ::
  "Oracle \<Rightarrow> Texts \<Rightarrow> string \<Rightarrow> string \<Rightarrow> AgentExecutionOptions \<Rightarrow> AgentState
   \<Rightarrow> AgentResponse res \<times> AgentState" where
  \<comment> \<open>the \<open>try\<close> block of \<open>sendMessage\<close>\<close>
  "sendMessage_try orc txt k userMessage options =
     bind_res (openTurn orc txt k userMessage options) (\<lambda>(supportsTools, tools, response, context).
       (let agentResponse =
              \<lparr> resp_message = (if r_content response \<noteq> [] then r_content response else placeholder),
                resp_toolResults = [], resp_contextUpdate = None,
                resp_screenshot = (if aeo_includeScreenshot options = Some True
                                   then screenshot context else JUndefined) \<rparr> in
        bind_res
          (case r_toolCalls response of
             Some (toolCall # rest) \<Rightarrow>
               toolTurn orc txt k options supportsTools tools response (toolCall # rest) agentResponse
           | _ \<Rightarrow>
               (\<lambda>st. case now_at orc st of
                        (now, st1) \<Rightarrow>
                          (Inr agentResponse,
                           push_message k \<lparr> m_role = Assistant, m_content = r_content response,
                             m_timestamp = Some now, m_toolCalls = None, m_toolCallId = None \<rparr> st1)))
          (\<lambda>final st. case now_at orc st of
                         (now, st1) \<Rightarrow>
                           (Inr final, modify_conversation k (\<lambda>c. c\<lparr> conv_lastActivity := now \<rparr>) st1))))"

definition sendMessage ::
  "Oracle \<Rightarrow> Texts \<Rightarrow> string \<Rightarrow> string \<Rightarrow> AgentExecutionOptions \<Rightarrow> AgentState
   \<Rightarrow> AgentResponse \<times> AgentState" where
  "sendMessage orc txt k userMessage options st =
     (case sendMessage_try orc txt k userMessage options st of
        (Inr agentResponse, st1) \<Rightarrow> (agentResponse, st1)
      | (Inl e, st1) \<Rightarrow> (errorResponse e, st1))"


text \<open>
  Every entry of the map is put there by \<open>createOrGetConversation\<close>, under the id the
  conversation carries.
\<close>

definition store_wf :: "ConversationStore \<Rightarrow> bool" where
  "store_wf s \<longleftrightarrow> list_all (\<lambda>(k, c). conv_id c = k) s \<and> distinct (map fst s)"

section \<open>Example inputs\<close>

text \<open>
  A page session \<open>tab\<close> on a launched browser, and an outside world where every page
  operation succeeds with an undefined value, the clock counts the events so far, and
  OpenAI is the one backend (it supports tools and answers with empty text).
\<close>

definition tab_world :: World where
  "tab_world = \<lparr> isInitialized = True, browser = True, pages = [''tab''], trace = [] \<rparr>"

definition tab_executor :: ExecutorState where
  "tab_executor = \<lparr> world = tab_world, contexts = \<lparr> currentContext = None, contextHistory = [] \<rparr> \<rparr>"

definition quiet_oracle :: Oracle where
  "quiet_oracle =
     \<lparr> page_reply = (\<lambda>history pageId op. Inr JUndefined),
       launch_reply = (\<lambda>history. Inr ()),
       clock = (\<lambda>history. int (length history)),
       service = (\<lambda>serviceType. if serviceType = OpenAI then Some True else None),
       provider_reply = (\<lambda>history earlier call. Inr \<lparr> r_content = [], r_toolCalls = None \<rparr>) \<rparr>"

definition confirmed_options :: ToolExecutionOptions where
  \<comment> \<open>\<open>{ pageId: 'tab', autoConfirm: true }\<close>\<close>
  "confirmed_options = \<lparr> teo_pageId = ''tab'', teo_autoConfirm = Some True,
                          teo_safetyLevel = None, teo_updateContext = None \<rparr>"

definition plain_options :: ToolExecutionOptions where
  \<comment> \<open>\<open>{ pageId: 'tab' }\<close>\<close>
  "plain_options = \<lparr> teo_pageId = ''tab'', teo_autoConfirm = None,
                      teo_safetyLevel = None, teo_updateContext = None \<rparr>"






text \<open>A driver whose every method rejects, as when the browser connection is gone.\<close>

definition closed_driver :: "unit Deps" where
  "closed_driver =
     \<lparr> d_evaluateScript = (\<lambda>pageId scr w. (Inl ''Target closed'', w)),
       d_getPageContent = (\<lambda>pageId html w. (Inl ''Target closed'', w)),
       d_takeScreenshot = (\<lambda>pageId fullPage w. (Inl ''Target closed'', w)),
       d_now = (\<lambda>w. (1700000000000, w)) \<rparr>"

text \<open>
  A page where the navigation probe evaluates to what its script says, with a history of
  several entries; every other page operation gives undefined.
\<close>

definition probe_oracle :: Oracle where
  "probe_oracle =
     quiet_oracle\<lparr> page_reply := (\<lambda>history pageId op.
       if op = Evaluate NavigationStateScript
       then Inr (JObj [(''canGoBack'', JBool True), (''canGoForward'', JBool False), (''history'', JArr [])])
       else Inr JUndefined) \<rparr>"


text \<open>
  A backend that answers the first request of a turn with no text and two tool calls, a
  \<open>type\<close> without text and then a \<open>click\<close>, and any later request with a closing text.
\<close>

definition batch_calls :: "BrowserToolCall list" where
  "batch_calls =
     [\<lparr> tc_id = ''call_1'', tc_name = ''type'',
        tc_arguments = [(''selector'', JStr ''#q''), (''text'', JStr [])] \<rparr>,
      \<lparr> tc_id = ''call_2'', tc_name = ''click'', tc_arguments = [(''selector'', JStr ''#go'')] \<rparr>]"

definition batch_response :: AIResponse where
  "batch_response = \<lparr> r_content = [], r_toolCalls = Some batch_calls \<rparr>"

definition batch_oracle :: Oracle where
  "batch_oracle =
     quiet_oracle\<lparr> provider_reply := (\<lambda>history earlier call.
       case earlier of
         [] \<Rightarrow> Inr batch_response
       | first # rest \<Rightarrow> Inr \<lparr> r_content = ''Done.'', r_toolCalls = None \<rparr>) \<rparr>"

definition example_texts :: Texts where
  "example_texts = \<lparr> contextualSystemPrompt = (\<lambda>context. Inr ''PROMPT''),
                      json_stringify = (\<lambda>v. ''{}'') \<rparr>"

definition fresh_agent :: AgentState where
  "fresh_agent = \<lparr> executor = tab_executor, conversations = [], asked = [] \<rparr>"

definition confirmed_turn :: AgentExecutionOptions where
  \<comment> \<open>\<open>{ serviceType: 'openai', pageId: 'tab', autoConfirm: true }\<close>\<close>
  "confirmed_turn = \<lparr> aeo_serviceType = OpenAI, aeo_pageId = ''tab'', aeo_autoConfirm = Some True,
                       aeo_safetyLevel = None, aeo_maxIterations = None, aeo_includeScreenshot = None \<rparr>"

definition plain_turn :: AgentExecutionOptions where
  \<comment> \<open>\<open>{ serviceType: 'openai', pageId: 'tab' }\<close>\<close>
  "plain_turn = \<lparr> aeo_serviceType = OpenAI, aeo_pageId = ''tab'', aeo_autoConfirm = None,
                   aeo_safetyLevel = None, aeo_maxIterations = None, aeo_includeScreenshot = None \<rparr>"

section \<open>Views of the state used in the statements\<close>

definition shape :: "AIMessage \<Rightarrow> Role \<times> string \<times> BrowserToolCall list option \<times> string option" where
  \<comment> \<open>a message without its timestamp\<close>
  "shape m = (m_role m, m_content m, m_toolCalls m, m_toolCallId m)"

definition absent_or_empty :: "jsval \<Rightarrow> bool" where
  "absent_or_empty v \<longleftrightarrow> v = JUndefined \<or> v = JArr []"

definition is_string :: "jsval \<Rightarrow> bool" where
  "is_string v = (case v of JStr s \<Rightarrow> True | _ \<Rightarrow> False)"

definition summarizable :: "BrowserContext \<Rightarrow> bool" where
  \<comment> \<open>what the snapshots built over PuppeteerManager look like: element lists absent or
      empty, and a page text that is a string when there is no summary of it\<close>
  "summarizable c \<longleftrightarrow>
     absent_or_empty (buttons c) \<and> absent_or_empty (links c) \<and> absent_or_empty (formFields c) \<and>
     (truthy (contentSummary c) \<or> is_string (pageContent c))"


definition has_conversation :: "string \<Rightarrow> AgentState \<Rightarrow> bool" where
  "has_conversation k st \<longleftrightarrow> k \<in> fst ` set (conversations st)"

definition keeps :: "('s \<Rightarrow> bool) \<Rightarrow> ('s \<Rightarrow> 'a \<times> 's) \<Rightarrow> bool" where
  \<comment> \<open>a step keeps a property of the state\<close>
  "keeps P m \<longleftrightarrow> (\<forall>s. P s \<longrightarrow> P (snd (m s)))"

definition toolShape :: "Texts \<Rightarrow> BrowserToolCall \<times> BrowserToolResult
    \<Rightarrow> Role \<times> string \<times> BrowserToolCall list option \<times> string option" where
  \<comment> \<open>the tool message of a call and its result, without its timestamp\<close>
  "toolShape txt cr = (Tool, formatToolResult txt (snd cr), None, Some (tc_id (fst cr)))"


definition first_response :: "string + (bool \<times> string list \<times> AIResponse \<times> BrowserContext) \<Rightarrow> AIResponse option" where
  \<comment> \<open>the backend's answer to the first request of a turn, when the turn got that far\<close>
  "first_response opened = (case opened of Inl e \<Rightarrow> None | Inr (supports, tools, response, context) \<Rightarrow> Some response)"

definition turn_view :: "string \<Rightarrow> AgentResponse \<times> AgentState
    \<Rightarrow> AgentResponse \<times> (Role \<times> string \<times> BrowserToolCall list option \<times> string option) list" where
  \<comment> \<open>what a turn returned, and the messages of conversation \<open>k\<close> after it\<close>
  "turn_view k turn = (fst turn, map shape (messages_of k (snd turn)))"

definition navigation_of :: "BrowserContext res \<Rightarrow> (jsval \<times> jsval \<times> jsval \<times> jsval) option" where
  \<comment> \<open>\<open>canGoBack\<close>, \<open>canGoForward\<close>, \<open>navigationHistory\<close> and \<open>error\<close> of a returned snapshot\<close>
  "navigation_of r =
     (case r of
        Inl e \<Rightarrow> None
      | Inr c \<Rightarrow> Some (canGoBack c, canGoForward c, navigationHistory c, error c))"



section \<open>The safety gate\<close>

lemma gate_closed:
  assumes "\<not> canExecuteTool (tc_name toolCall) (safetyOf (tc_name toolCall)) options"
  shows "executeTool orc toolCall options st =
           ((failed (''Tool '' @ tc_name toolCall @ '' requires ''
                     @ level_text (safetyOf (tc_name toolCall)) @ '' permission level''))
              \<lparr> tr_message := Some (''Please confirm execution of '' @ tc_name toolCall) \<rparr>, st)"
  using assms by (simp add: executeTool_def)

lemma gate_needs_grant:
  assumes "level \<noteq> Level SAFE" and "teo_autoConfirm options \<noteq> Some True" and "teo_safetyLevel options = None"
  shows "\<not> canExecuteTool name level options"
  using assms by (simp add: canExecuteTool_def)

text \<open>
  Claim C1, as amended. A tool classified \<open>dangerous\<close>, executed with \<open>autoConfirm\<close> not
  set and no granted \<open>safetyLevel\<close>, gives the confirmation-required result with
  \<open>success = false\<close>, and the executor's state, the driver's trace included, is unchanged:
  no driver primitive is invoked.
\<close>

theorem dangerous_tool_gated:
  assumes "safetyOf (tc_name toolCall) = Level DANGEROUS"
    and "teo_autoConfirm options \<noteq> Some True"
    and "teo_safetyLevel options = None"
  shows "tr_success (fst (executeTool orc toolCall options st)) = False \<and>
         tr_error (fst (executeTool orc toolCall options st))
           = Some (''Tool '' @ tc_name toolCall @ '' requires dangerous permission level'') \<and>
         tr_message (fst (executeTool orc toolCall options st))
           = Some (''Please confirm execution of '' @ tc_name toolCall) \<and>
         snd (executeTool orc toolCall options st) = st \<and>
         trace (world (snd (executeTool orc toolCall options st))) = trace (world st)"
proof -
  have "\<not> canExecuteTool (tc_name toolCall) (safetyOf (tc_name toolCall)) options"
    using assms by (intro gate_needs_grant) simp_all
  from gate_closed [OF this] show ?thesis using assms(1) by (simp add: failed_def)
qed

theorem dangerous_tool_gated_witness:
  "safetyOf (tc_name \<lparr> tc_id = ''1'', tc_name = ''evaluate_script'',
                       tc_arguments = [(''script'', JStr ''1+1'')] \<rparr>) = Level DANGEROUS \<and>
   teo_autoConfirm plain_options \<noteq> Some True \<and>
   teo_safetyLevel plain_options = None \<and>
   tr_success (fst (executeTool quiet_oracle
     \<lparr> tc_id = ''1'', tc_name = ''evaluate_script'', tc_arguments = [(''script'', JStr ''1+1'')] \<rparr>
     plain_options tab_executor)) = False \<and>
   trace (world (snd (executeTool quiet_oracle
     \<lparr> tc_id = ''1'', tc_name = ''evaluate_script'', tc_arguments = [(''script'', JStr ''1+1'')] \<rparr>
     plain_options tab_executor))) = []"
proof -
  have h1: "safetyOf (tc_name \<lparr> tc_id = ''1'', tc_name = ''evaluate_script'',
                       tc_arguments = [(''script'', JStr ''1+1'')] \<rparr>) = Level DANGEROUS"
    by (simp add: safetyOf_def TOOL_SAFETY_LEVELS_def)
  have h2: "teo_autoConfirm plain_options \<noteq> Some True" by (simp add: plain_options_def)
  have h3: "teo_safetyLevel plain_options = None" by (simp add: plain_options_def)
  from dangerous_tool_gated [OF h1 h2 h3, of quiet_oracle tab_executor] h1 h2 h3
  show ?thesis by (simp add: tab_executor_def tab_world_def)
qed

text \<open>
  The claim as stated fails for a granted level: \<open>evaluate_script\<close> is dangerous, and with
  \<open>safetyLevel: 'dangerous'\<close> granted and \<open>autoConfirm\<close> not set it passes the gate, the
  driver's \<open>evaluateScript\<close> runs, and the result has \<open>success = true\<close>.
\<close>

theorem dangerous_tool_granted_counterexample:
  "safetyOf ''evaluate_script'' = Level DANGEROUS \<and>
   teo_autoConfirm (plain_options\<lparr> teo_safetyLevel := Some DANGEROUS \<rparr>) = None \<and>
   tr_success (fst (executeTool quiet_oracle
     \<lparr> tc_id = ''1'', tc_name = ''evaluate_script'', tc_arguments = [(''script'', JStr ''1+1'')] \<rparr>
     (plain_options\<lparr> teo_safetyLevel := Some DANGEROUS \<rparr>) tab_executor)) = True \<and>
   trace (world (snd (executeTool quiet_oracle
     \<lparr> tc_id = ''1'', tc_name = ''evaluate_script'', tc_arguments = [(''script'', JStr ''1+1'')] \<rparr>
     (plain_options\<lparr> teo_safetyLevel := Some DANGEROUS \<rparr>) tab_executor)))
     = [Drv (EvaluateScript ''tab'' (ScriptText (JStr ''1+1''))),
        Page ''tab'' (Evaluate (ScriptText (JStr ''1+1'')))]"
  by code_simp

section \<open>Names outside the safety table\<close>

text \<open>
  A name that is neither in the table nor a member of \<open>Object.prototype\<close> resolves to
  \<open>moderate\<close>; no name outside the table resolves to \<open>safe\<close>; and with \<open>autoConfirm\<close> not set
  and no granted level a call under any name outside the table is refused, the executor's
  state unchanged.
\<close>

lemma unknown_name_moderate:
  assumes "name \<notin> set (map fst TOOL_SAFETY_LEVELS)"
    and "name \<notin> set (map fst object_prototype_members)"
  shows "safetyOf name = Level MODERATE"
proof -
  have "map_of TOOL_SAFETY_LEVELS name = None"
    using assms(1) by (simp add: map_of_eq_None_iff)
  moreover have "map_of object_prototype_members name = None"
    using assms(2) by (simp add: map_of_eq_None_iff)
  ultimately show ?thesis by (simp add: safetyOf_def)
qed

lemma unknown_name_not_safe:
  assumes "name \<notin> set (map fst TOOL_SAFETY_LEVELS)"
  shows "safetyOf name \<noteq> Level SAFE"
proof -
  have "map_of TOOL_SAFETY_LEVELS name = None"
    using assms by (simp add: map_of_eq_None_iff)
  then show ?thesis by (simp add: safetyOf_def split: option.splits)
qed

lemma unknown_tool_refused:
  assumes "tc_name toolCall \<notin> set (map fst TOOL_SAFETY_LEVELS)"
    and "teo_autoConfirm options \<noteq> Some True"
    and "teo_safetyLevel options = None"
  shows "tr_success (fst (executeTool orc toolCall options st)) = False \<and>
         snd (executeTool orc toolCall options st) = st"
proof -
  have "\<not> canExecuteTool (tc_name toolCall) (safetyOf (tc_name toolCall)) options"
    using assms(2,3) unknown_name_not_safe [OF assms(1)] by (intro gate_needs_grant) simp_all
  from gate_closed [OF this] show ?thesis by (simp add: failed_def)
qed

text \<open>
  Claim C7 does not hold of the code for the names the table inherits from
  \<open>Object.prototype\<close>. The name \<open>toString\<close> is not in the table; the lookup finds the
  inherited function, which is truthy, so \<open>|| ToolSafetyLevel.MODERATE\<close> is not reached and
  the resolved level is that function, not \<open>moderate\<close>: the refusal prints the function's
  source text as the required level. A name such as \<open>download_file\<close> resolves to
  \<open>moderate\<close> as the claim says.
\<close>

theorem inherited_name_not_moderate:
  "map_of TOOL_SAFETY_LEVELS ''toString'' = None \<and>
   safetyOf ''toString'' = Inherited ''function toString() { [native code] }'' \<and>
   safetyOf ''download_file'' = Level MODERATE \<and>
   executeTool quiet_oracle \<lparr> tc_id = ''1'', tc_name = ''toString'', tc_arguments = [] \<rparr>
       plain_options tab_executor
     = (\<lparr> tr_success = False, tr_data = JUndefined,
          tr_error = Some ''Tool toString requires function toString() { [native code] } permission level'',
          tr_screenshot = JUndefined,
          tr_message = Some ''Please confirm execution of toString'' \<rparr>,
        tab_executor) \<and>
   executeTool quiet_oracle \<lparr> tc_id = ''1'', tc_name = ''download_file'', tc_arguments = [] \<rparr>
       plain_options tab_executor
     = (\<lparr> tr_success = False, tr_data = JUndefined,
          tr_error = Some ''Tool download_file requires moderate permission level'',
          tr_screenshot = JUndefined,
          tr_message = Some ''Please confirm execution of download_file'' \<rparr>,
        tab_executor)"
  by code_simp

section \<open>Filling a form\<close>



lemma page_steps_pages: "page_steps orc pageId ops w = (ok, w1) \<Longrightarrow> pages w1 = pages w"
  by (induction ops arbitrary: w)
     (auto simp: page_call_def record_event_def split: sum.splits)







text \<open>Reading a property after an assignment.\<close>

lemma set_insert_index: "set (insert_index n kv kvs) = insert kv (set kvs)"
  by (induction kvs) (auto split: option.splits)










section \<open>Snapshots built over PuppeteerManager can be summarised\<close>

lemma bind_res_InrE:
  assumes "bind_res m f w = (Inr c, w')"
  obtains a w1 where "m w = (Inr a, w1)" and "f a w1 = (Inr c, w')"
  using assms by (auto simp: bind_res_def split: prod.splits sum.splits)

lemma pure_res_InrE:
  assumes "pure_res r w = (Inr c, w')"
  obtains "r = Inr c" and "w' = w"
  using assms by (auto simp: pure_res_def)

lemma returns_InrE:
  assumes "returns f w = (Inr a, w')"
  obtains "f w = (a, w')"
  using assms by (auto simp: returns_def split: prod.splits)

lemma extractContext_try_fields:
  assumes "extractContext_try deps pageId options w = (Inr c, w')"
  shows "\<exists>elements wa wb content wc wd.
           extractInteractiveElements deps pageId options wa = (Inr elements, wb) \<and>
           d_getPageContent deps pageId False wc = (Inr content, wd) \<and>
           buttons c = js_get_opt elements ''buttons'' \<and>
           links c = js_get_opt elements ''links'' \<and>
           formFields c = js_get_opt elements ''forms'' \<and>
           pageContent c = (if ar_success content
                            then js_or (js_get_opt (ar_data content) ''text'') (JStr []) else JStr []) \<and>
           contentSummaryOf (pageContent c) (maxContentLength options) = Inr (contentSummary c)"
  using assms unfolding extractContext_try_def
proof (elim bind_res_InrE pure_res_InrE)
  fix startTime w1 pageInfo w2 contentResult w3 elements w4 nav w5 viewportInfo w6 shot w7
    url w8 summary w9 clickable w10 viewport w11 goBack w12 stamp w13 finish w14
  assume content: "d_getPageContent deps pageId False w2 = (Inr contentResult, w3)"
    and elems: "extractInteractiveElements deps pageId options w3 = (Inr elements, w4)"
    and summ: "contentSummaryOf
                 (if ar_success contentResult
                  then js_or (js_get_opt (ar_data contentResult) ''text'') (JStr []) else JStr [])
                 (maxContentLength options) = Inr summary"
    and c: "Inr \<lparr> currentUrl = url,
           pageTitle = js_get_opt pageInfo ''title'',
           domain = js_get_opt pageInfo ''domain'',
           protocol = js_get_opt pageInfo ''protocol'',
           pageContent =
             (if ar_success contentResult
              then js_or (js_get_opt (ar_data contentResult) ''text'') (JStr [])
              else JStr []),
           contentSummary = summary,
           clickableElements = clickable,
           formFields = js_get_opt elements ''forms'',
           links = js_get_opt elements ''links'',
           buttons = js_get_opt elements ''buttons'',
           inputs = js_get_opt elements ''inputs'',
           screenshot = shot,
           viewportSize = viewport,
           scrollPosition = js_get_opt viewportInfo ''scroll'',
           canGoBack = goBack,
           canGoForward = js_get_opt nav ''canGoForward'',
           navigationHistory = js_get_opt nav ''history'',
           error = JUndefined,
           lastActionError = JUndefined,
           timestamp = stamp,
           loadTime = Some (finish - startTime) \<rparr> = Inr c"
  from c have c': "c = \<lparr> currentUrl = url,
           pageTitle = js_get_opt pageInfo ''title'',
           domain = js_get_opt pageInfo ''domain'',
           protocol = js_get_opt pageInfo ''protocol'',
           pageContent =
             (if ar_success contentResult
              then js_or (js_get_opt (ar_data contentResult) ''text'') (JStr [])
              else JStr []),
           contentSummary = summary,
           clickableElements = clickable,
           formFields = js_get_opt elements ''forms'',
           links = js_get_opt elements ''links'',
           buttons = js_get_opt elements ''buttons'',
           inputs = js_get_opt elements ''inputs'',
           screenshot = shot,
           viewportSize = viewport,
           scrollPosition = js_get_opt viewportInfo ''scroll'',
           canGoBack = goBack,
           canGoForward = js_get_opt nav ''canGoForward'',
           navigationHistory = js_get_opt nav ''history'',
           error = JUndefined,
           lastActionError = JUndefined,
           timestamp = stamp,
           loadTime = Some (finish - startTime) \<rparr>" by simp
  show ?thesis
    apply (rule exI [of _ elements], rule exI [of _ w3], rule exI [of _ w4])
    apply (rule exI [of _ contentResult], rule exI [of _ w2], rule exI [of _ w3])
    using content elems summ unfolding c' by simp
qed


lemma puppeteer_evaluate:
  "\<exists>r w1. d_evaluateScript (puppeteer orc) pageId scr w = (Inr r, w1) \<and>
          (ar_success r \<longrightarrow> (\<exists>v. ar_data r = JObj [(''result'', v)]))"
  by (auto simp: puppeteer_def returns_def evaluateScript_def Let_def page_missing_def ar_fail_def
                 ar_ok_def page_call_def split: prod.splits sum.splits)

lemma elements_over_puppeteer:
  assumes "extractInteractiveElements (puppeteer orc) pageId options w = (Inr elements, w1)"
  shows "absent_or_empty (js_get_opt elements ''buttons'') \<and>
         absent_or_empty (js_get_opt elements ''links'') \<and>
         absent_or_empty (js_get_opt elements ''forms'')"
proof -
  let ?scr = "InteractiveElementsScript
                (if includeInvisibleElements options = Some True then ''true'' else ''el.isVisible'')
                (cap_or (maxElementsPerType options) 20)
                (cap_or (maxElementsPerType options) 30)"
  obtain r w2 where r: "d_evaluateScript (puppeteer orc) pageId ?scr w = (Inr r, w2)"
    and wrap: "ar_success r \<longrightarrow> (\<exists>v. ar_data r = JObj [(''result'', v)])"
    using puppeteer_evaluate [of orc pageId ?scr w] by blast
  have "elements = (if ar_success r then ar_data r
                    else JObj [(''clickable'', JArr []), (''forms'', JArr []), (''links'', JArr []),
                               (''buttons'', JArr []), (''inputs'', JArr [])])"
    using assms r by (simp add: extractInteractiveElements_def bind_res_def pure_res_def)
  then show ?thesis using wrap
    by (auto simp: absent_or_empty_def js_get_opt_def obj_get_def)
qed

lemma contentSummaryOf_cases:
  assumes "contentSummaryOf content maxLength = Inr summary"
  shows "truthy summary \<or> is_string content"
  using assms
  by (auto simp: contentSummaryOf_def is_string_def split: if_splits jsval.splits)

lemma extractContext_try_summarizable:
  assumes "extractContext_try (puppeteer orc) pageId options w = (Inr c, w')"
  shows "summarizable c"
proof -
  from extractContext_try_fields [OF assms]
  obtain elements wa wb where
    e: "extractInteractiveElements (puppeteer orc) pageId options wa = (Inr elements, wb)"
    and b: "buttons c = js_get_opt elements ''buttons''"
    and l: "links c = js_get_opt elements ''links''"
    and f: "formFields c = js_get_opt elements ''forms''"
    and s: "contentSummaryOf (pageContent c) (maxContentLength options) = Inr (contentSummary c)"
    by blast
  show ?thesis
    unfolding summarizable_def b l f
    using elements_over_puppeteer [OF e] contentSummaryOf_cases [OF s] by simp
qed

lemma minimalContext_summarizable: "summarizable (minimalContext msg now)"
  by (simp add: summarizable_def minimalContext_def absent_or_empty_def is_string_def)

lemma extractContext_summarizable:
  "\<exists>c w'. extractContext (puppeteer orc) pageId options w = (Inr c, w') \<and> summarizable c"
proof (cases "extractContext_try (puppeteer orc) pageId options w")
  case (Pair r w1)
  show ?thesis
  proof (cases r)
    case (Inl msg)
    then show ?thesis using Pair minimalContext_summarizable
      by (simp add: extractContext_def split: prod.splits)
  next
    case (Inr c)
    then have "summarizable c" using Pair extractContext_try_summarizable by blast
    then show ?thesis using Pair Inr by (simp add: extractContext_def)
  qed
qed

lemma listPart_absent_or_empty: "absent_or_empty v \<Longrightarrow> listPart label field f v maxN = Inr []"
  by (auto simp: absent_or_empty_def listPart_def js_gt_def js_get_opt_def)

lemma contentPart_summarizable:
  "truthy (contentSummary c) \<or> is_string (pageContent c) \<Longrightarrow> \<exists>part. contentPart c options = Inr part"
  by (auto simp: contentPart_def is_string_def Let_def split: jsval.splits)

lemma summary_of_summarizable:
  assumes "summarizable c"
  shows "\<exists>text. cm_createContextSummary (cm_updateContext c m) options = Inr text"
proof -
  have cur: "currentContext (cm_updateContext c m) = Some c"
    by (simp add: cm_updateContext_def Let_def split: option.splits)
  obtain part where p: "contentPart c options = Inr part"
    using assms contentPart_summarizable unfolding summarizable_def by blast
  have b: "\<And>label field f n. listPart label field f (buttons c) n = Inr []"
    and l: "\<And>label field f n. listPart label field f (links c) n = Inr []"
    and f: "\<And>label field f n. listPart label field f (formFields c) n = Inr []"
    using assms listPart_absent_or_empty unfolding summarizable_def by blast+
  show ?thesis
    unfolding cm_createContextSummary_def cur by (simp add: Let_def p b l f)
qed

lemma ex_updateContext_then_summary:
  "\<exists>c st1 text. ex_updateContext orc pageId options st = (Inr c, st1) \<and>
                 getContextSummary st1 options' = Inr text"
proof -
  obtain c w' where e: "extractContext (puppeteer orc) pageId options (world st) = (Inr c, w')"
    and s: "summarizable c"
    using extractContext_summarizable by blast
  obtain summary where "cm_createContextSummary (cm_updateContext c (contexts st)) options' = Inr summary"
    using summary_of_summarizable [OF s] by blast
  then show ?thesis using e by (simp add: ex_updateContext_def getContextSummary_def)
qed

section \<open>Steps of the orchestrator\<close>

lemma keeps_bind: "keeps P m \<Longrightarrow> (\<And>a. keeps P (f a)) \<Longrightarrow> keeps P (bind_res m f)"
  by (auto simp: keeps_def bind_res_def split: prod.splits sum.splits)

lemma keeps_pure: "keeps P (pure_res r)"
  by (simp add: keeps_def pure_res_def)

lemma keeps_returns: "keeps P f \<Longrightarrow> keeps P (returns f)"
  by (auto simp: keeps_def returns_def split: prod.splits)

lemma keepsD: "keeps P m \<Longrightarrow> P s \<Longrightarrow> m s = (r, s1) \<Longrightarrow> P s1"
  by (metis keeps_def snd_conv)

lemma on_world_frame [simp]:
  "conversations (snd (on_world f st)) = conversations st"
  "asked (snd (on_world f st)) = asked st"
  by (simp_all add: on_world_def split: prod.splits)

lemma on_executor_frame [simp]:
  "conversations (snd (on_executor f st)) = conversations st"
  "asked (snd (on_executor f st)) = asked st"
  by (simp_all add: on_executor_def split: prod.splits)

lemma now_at_frame [simp]:
  "conversations (snd (now_at orc st)) = conversations st"
  "asked (snd (now_at orc st)) = asked st"
  by (simp_all add: now_at_def)

lemma modify_conversation_frame [simp]:
  "asked (modify_conversation k f st) = asked st"
  "executor (modify_conversation k f st) = executor st"
  "fst ` set (conversations (modify_conversation k f st)) = fst ` set (conversations st)"
  by (auto simp: modify_conversation_def image_iff split: if_splits) force+

lemma push_message_frame [simp]:
  "asked (push_message k m st) = asked st"
  "executor (push_message k m st) = executor st"
  "has_conversation j (push_message k m st) = has_conversation j st"
  by (simp_all add: push_message_def has_conversation_def)

lemma map_of_modify:
  "map_of (map (\<lambda>(k', c). if k' = k then (k', f c) else (k', c)) s) j
     = (if j = k then map_option f (map_of s j) else map_of s j)"
  by (induction s) auto

lemma messages_of_push:
  "has_conversation k st \<Longrightarrow> messages_of k (push_message k m st) = messages_of k st @ [m]"
  by (auto simp: messages_of_def push_message_def modify_conversation_def store_get_def
                 has_conversation_def map_of_modify weak_map_of_SomeI
           split: option.splits)

lemma messages_of_modify:
  "(\<And>c. conv_messages (f c) = conv_messages c) \<Longrightarrow>
   messages_of k (modify_conversation j f st) = messages_of k st"
  by (auto simp: messages_of_def modify_conversation_def store_get_def map_of_modify
           split: option.splits)

lemma messages_of_cong:
  "conversations st' = conversations st \<Longrightarrow> messages_of k st' = messages_of k st"
  by (simp add: messages_of_def)

lemma has_conversation_cong:
  "conversations st' = conversations st \<Longrightarrow> has_conversation k st' = has_conversation k st"
  by (simp add: has_conversation_def)

lemma executeToolCalls_length:
  "length (fst (executeToolCalls orc calls options st)) = length calls"
proof (induction calls arbitrary: st)
  case Nil
  then show ?case by simp
next
  case (Cons c calls)
  obtain r st1 where e: "executeTool orc c (toolOptions options) st = (r, st1)"
    by (cases "executeTool orc c (toolOptions options) st")
  obtain rs st2 where es: "executeToolCalls orc calls options st1 = (rs, st2)"
    by (cases "executeToolCalls orc calls options st1")
  have "length rs = length calls" using Cons.IH [of st1] es by simp
  then show ?case using e es by simp
qed

lemma executeToolCalls_append:
  "executeToolCalls orc (xs @ ys) options st =
     (case executeToolCalls orc xs options st of
        (rs, st1) \<Rightarrow>
          (case executeToolCalls orc ys options st1 of
             (rs', st2) \<Rightarrow> (rs @ rs', st2)))"
  by (induction xs arbitrary: st) (auto split: prod.splits)

text \<open>
  The calls run one after the other, in the order given: the result at each position is
  that of \<open>executeTool\<close> on the call at that position, in the state the calls before it
  left.
\<close>

lemma executeToolCalls_in_order:
  "fst (executeToolCalls orc calls options st) =
     map (\<lambda>i. fst (executeTool orc (calls ! i) (toolOptions options)
                      (snd (executeToolCalls orc (take i calls) options st))))
       [0..<length calls]"
proof (induction calls rule: rev_induct)
  case Nil
  then show ?case by simp
next
  case (snoc c calls)
  have pre: "\<And>i. i < length calls \<Longrightarrow> take i (calls @ [c]) = take i calls \<and> (calls @ [c]) ! i = calls ! i"
    by (simp add: nth_append)
  have "fst (executeToolCalls orc (calls @ [c]) options st)
      = fst (executeToolCalls orc calls options st)
        @ [fst (executeTool orc c (toolOptions options) (snd (executeToolCalls orc calls options st)))]"
    by (simp add: executeToolCalls_append split: prod.splits)
  also have "fst (executeToolCalls orc calls options st)
      = map (\<lambda>i. fst (executeTool orc ((calls @ [c]) ! i) (toolOptions options)
                      (snd (executeToolCalls orc (take i (calls @ [c])) options st))))
          [0..<length calls]"
    using snoc.IH pre by (simp cong: map_cong)
  finally show ?case by simp
qed

lemma pushToolMessages_run:
  assumes "length results = length calls" and "has_conversation k st"
  shows "\<exists>added st'.
           pushToolMessages orc txt k calls results st = (Inr (), st') \<and>
           messages_of k st' = messages_of k st @ added \<and>
           map shape added = map (toolShape txt) (zip calls results) \<and>
           has_conversation k st' \<and> asked st' = asked st"
  using assms
proof (induction calls arbitrary: results st)
  case Nil
  then show ?case by simp
next
  case (Cons c calls)
  then obtain r rest where res: "results = r # rest" by (cases results) auto
  obtain now st1 where n: "now_at orc st = (now, st1)" by (cases "now_at orc st")
  have c1: "conversations st1 = conversations st" and a1: "asked st1 = asked st"
    using n now_at_frame [of orc st] by simp_all
  let ?st2 = "push_message k (toolMessage txt c r now) st1"
  have h1: "has_conversation k st1" using Cons.prems(2) c1 by (simp add: has_conversation_def)
  have m2: "messages_of k ?st2 = messages_of k st @ [toolMessage txt c r now]"
    using messages_of_push [OF h1] messages_of_cong [OF c1] by simp
  have h2: "has_conversation k ?st2" using h1 by simp
  from Cons.IH [of rest ?st2] Cons.prems(1) res h2
  obtain added st' where
    run: "pushToolMessages orc txt k calls rest ?st2 = (Inr (), st')"
    and ms: "messages_of k st' = messages_of k ?st2 @ added"
    and sh: "map shape added = map (toolShape txt) (zip calls rest)"
    and hc: "has_conversation k st'" and ak: "asked st' = asked ?st2"
    by auto
  have "pushToolMessages orc txt k (c # calls) results st = (Inr (), st')"
    using res n run by simp
  moreover have "messages_of k st' = messages_of k st @ (toolMessage txt c r now # added)"
    using ms m2 by simp
  moreover have "map shape (toolMessage txt c r now # added) = map (toolShape txt) (zip (c # calls) results)"
    using sh res by (simp add: shape_def toolShape_def toolMessage_def)
  ultimately show ?case using hc ak a1
    by (intro exI [of _ "toolMessage txt c r now # added"] exI [of _ st'] conjI) simp_all
qed


lemma getFollowUpResponse_frame:
  "conversations (snd (getFollowUpResponse orc svc supports messages tools st)) = conversations st \<and>
   asked (snd (getFollowUpResponse orc svc supports messages tools st))
     = asked st @ [Asked svc supports messages (if supports then tools else [])]"
  by (simp add: getFollowUpResponse_def provider_call_def split: sum.splits)

text \<open>
  The tool branch of a turn, on a state that holds the conversation: it returns a response
  (it does not throw), leaves the assistant message and one tool message per call behind,
  and asks the backend again exactly when some result has \<open>success\<close>.
\<close>

lemma toolTurn_run:
  assumes hc: "has_conversation k st"
  shows "\<exists>added final st'.
     toolTurn orc txt k options supports tools response calls ar st = (Inr final, st') \<and>
     messages_of k st' = messages_of k st @ added \<and>
     map shape added = (Assistant, r_content response, Some calls, None)
        # map (toolShape txt) (zip calls (fst (executeToolCalls orc calls options (executor st)))) \<and>
     has_conversation k st' \<and>
     resp_toolResults final = fst (executeToolCalls orc calls options (executor st)) \<and>
     resp_screenshot final = resp_screenshot ar \<and>
     (if list_ex tr_success (fst (executeToolCalls orc calls options (executor st)))
      then asked st' = asked st @ [Asked (aeo_serviceType options) supports (messages_of k st')
                                     (if supports then tools else [])]
      else asked st' = asked st \<and> resp_message final = resp_message ar)"
proof -
  obtain results est1 where ex: "executeToolCalls orc calls options (executor st) = (results, est1)"
    by (cases "executeToolCalls orc calls options (executor st)")
  have len: "length results = length calls"
    using executeToolCalls_length [of orc calls options "executor st"] ex by simp
  define sa where "sa = st\<lparr> executor := est1 \<rparr>"
  have step1: "returns (on_executor (executeToolCalls orc calls options)) st = (Inr results, sa)"
    using ex by (simp add: returns_def on_executor_def sa_def)
  obtain t1 sa1 where n1: "now_at orc sa = (t1, sa1)" by (cases "now_at orc sa")
  have ca1: "conversations sa1 = conversations st" and aa1: "asked sa1 = asked st"
    using n1 now_at_frame [of orc sa] by (simp_all add: sa_def)
  define assistant where "assistant =
     \<lparr> m_role = Assistant, m_content = r_content response, m_timestamp = Some t1,
       m_toolCalls = Some calls, m_toolCallId = None \<rparr>"
  define sb where "sb = push_message k assistant sa1"
  have ha1: "has_conversation k sa1" using hc ca1 by (simp add: has_conversation_def)
  have mb: "messages_of k sb = messages_of k st @ [assistant]"
    using messages_of_push [OF ha1] messages_of_cong [OF ca1] by (simp add: sb_def)
  have hb: "has_conversation k sb" using ha1 by (simp add: sb_def)
  have ab: "asked sb = asked st" using aa1 by (simp add: sb_def)
  from pushToolMessages_run [OF len hb, of orc "txt"]
  obtain added sc where
    push: "pushToolMessages orc txt k calls results sb = (Inr (), sc)"
    and mc: "messages_of k sc = messages_of k sb @ added"
    and sh: "map shape added = map (toolShape txt) (zip calls results)"
    and hcc: "has_conversation k sc" and ac: "asked sc = asked sb"
    by blast
  obtain followUp sf where
    gf: "getFollowUpResponse orc (aeo_serviceType options) supports (messages_of k sc) tools sc
           = (followUp, sf)"
    by (cases "getFollowUpResponse orc (aeo_serviceType options) supports (messages_of k sc) tools sc")
  define sd where "sd = (if list_ex tr_success results then sf else sc)"
  define message where "message =
     (if list_ex tr_success results
      then (if r_content followUp \<noteq> [] then r_content followUp else resp_message ar)
      else resp_message ar)"
  have cd: "conversations sd = conversations sc"
    using getFollowUpResponse_frame [of orc "aeo_serviceType options" supports "messages_of k sc" tools sc] gf
    by (simp add: sd_def)
  have ad: "asked sd = (if list_ex tr_success results
                        then asked st @ [Asked (aeo_serviceType options) supports (messages_of k sc)
                                           (if supports then tools else [])]
                        else asked st)"
    using getFollowUpResponse_frame [of orc "aeo_serviceType options" supports "messages_of k sc" tools sc]
      gf ac ab by (simp add: sd_def)
  from ex_updateContext_then_summary [of orc "aeo_pageId options" no_options "executor sd" no_options]
  obtain c est2 summary where
    up: "ex_updateContext orc (aeo_pageId options) no_options (executor sd) = (Inr c, est2)"
    and su: "getContextSummary est2 no_options = Inr summary"
    by blast
  define se where "se = sd\<lparr> executor := est2 \<rparr>"
  have ce: "conversations se = conversations sc" and ae: "asked se = asked sd"
    using cd by (simp_all add: se_def)
  define final where "final = ar\<lparr> resp_message := message, resp_toolResults := results,
       resp_contextUpdate := (if summary \<noteq> [] then Some summary else None) \<rparr>"
  note push' = push [unfolded sb_def assistant_def]
  have run: "toolTurn orc txt k options supports tools response calls ar st = (Inr final, se)"
  proof (cases "list_ex tr_success results")
    case True
    then have sd: "sd = sf" by (simp add: sd_def)
    show ?thesis
      unfolding toolTurn_def
      using True up [unfolded sd] su
      by (simp add: bind_res_def pure_res_def step1 n1 push' gf on_executor_def se_def sd
                    final_def message_def)
  next
    case False
    then have sd: "sd = sc" by (simp add: sd_def)
    show ?thesis
      unfolding toolTurn_def
      using False up [unfolded sd] su
      by (simp add: bind_res_def pure_res_def step1 n1 push' on_executor_def se_def sd
                    final_def message_def)
  qed
  have me: "messages_of k se = messages_of k st @ (assistant # added)"
    using messages_of_cong [OF ce] mc mb by simp
  have she: "map shape (assistant # added) = (Assistant, r_content response, Some calls, None)
        # map (toolShape txt) (zip calls results)"
    using sh by (simp add: shape_def assistant_def)
  have he: "has_conversation k se" using hcc has_conversation_cong [OF ce] by simp
  have ask: "(if list_ex tr_success results
      then asked se = asked st @ [Asked (aeo_serviceType options) supports (messages_of k se)
                                     (if supports then tools else [])]
      else asked se = asked st \<and> resp_message final = resp_message ar)"
    using ae ad messages_of_cong [OF ce] by (simp add: final_def message_def)
  show ?thesis
    apply (rule exI [of _ "assistant # added"], rule exI [of _ final], rule exI [of _ se])
    using run me she he ask ex by (simp add: final_def)
qed


lemma store_set_has: "k \<in> fst ` set (store_set s k c)"
  by (auto simp: store_set_def image_iff split: if_splits) force

lemma createOrGetConversation_has:
  "has_conversation k (snd (createOrGetConversation orc k pageId url st))"
proof (cases "store_get (conversations st) k")
  case None
  then show ?thesis
    by (simp add: createOrGetConversation_def has_conversation_def store_set_has Let_def
             split: prod.splits)
next
  case (Some c)
  then have "k \<in> fst ` set (conversations st)"
    by (metis store_get_def map_of_SomeD fst_conv image_eqI)
  then show ?thesis using Some
    by (simp add: createOrGetConversation_def has_conversation_def split: prod.splits)
       (metis now_at_frame(1) snd_conv)
qed

lemma keeps_on_executor: "keeps (has_conversation k) (on_executor f)"
  by (simp add: keeps_def has_conversation_def)

lemma keeps_pushUserMessage: "keeps (has_conversation k) (pushUserMessage orc j userMessage)"
proof -
  have "\<And>st now st1. has_conversation k st \<Longrightarrow> now_at orc st = (now, st1) \<Longrightarrow>
             has_conversation k (push_message j (userMessageAt userMessage now) st1)"
    by (metis now_at_frame(1) snd_conv push_message_frame(3) has_conversation_def)
  then show ?thesis
    unfolding keeps_def pushUserMessage_def by (auto split: prod.splits)
qed

lemma hasContextChanged_frame:
  "fst ` set (conversations (snd (hasContextChanged j context st))) = fst ` set (conversations st)"
  by (simp add: hasContextChanged_def split: option.splits)

lemma keeps_pushSystemMessage:
  "keeps (has_conversation k) (pushSystemMessage orc j prompt context)"
proof -
  have a: "\<And>st now st1. has_conversation k st \<Longrightarrow> now_at orc st = (now, st1) \<Longrightarrow>
             has_conversation k (push_message j (systemMessage prompt now) st1)"
    by (metis now_at_frame(1) snd_conv push_message_frame(3) has_conversation_def)
  have b: "\<And>st ch st1. has_conversation k st \<Longrightarrow> hasContextChanged j context st = (ch, st1) \<Longrightarrow>
             has_conversation k st1"
    by (metis hasContextChanged_frame snd_conv has_conversation_def)
  show ?thesis
    unfolding keeps_def
  proof (intro allI impI)
    fix st assume h: "has_conversation k st"
    show "has_conversation k (snd (pushSystemMessage orc j prompt context st))"
    proof (cases "messages_of j st = []")
      case True
      obtain now st1 where n: "now_at orc st = (now, st1)" by (cases "now_at orc st")
      show ?thesis using True n a [OF h n] by (simp add: pushSystemMessage_def)
    next
      case False
      obtain ch st1 where c: "hasContextChanged j context st = (ch, st1)"
        by (cases "hasContextChanged j context st")
      obtain now st2 where n: "now_at orc st1 = (now, st2)" by (cases "now_at orc st1")
      show ?thesis using False c n b [OF h c] a [OF b [OF h c] n]
        by (cases ch) (simp_all add: pushSystemMessage_def)
    qed
  qed
qed

lemma keeps_firstCall: "keeps (has_conversation k) (firstCall orc j options)"
  by (auto simp: keeps_def firstCall_def has_conversation_def provider_call_def Let_def
           split: option.splits sum.splits prod.splits)

lemma openTurn_has_conversation:
  assumes "openTurn orc txt k userMessage options st = (Inr x, st1)"
  shows "has_conversation k st1"
proof -
  from assms obtain conversation s1 where
    first: "returns (createOrGetConversation orc k (aeo_pageId options) JUndefined) st = (Inr conversation, s1)"
    and rest: "bind_res (on_executor (ex_updateContext orc (aeo_pageId options)
                              (no_options\<lparr> maxContentLength := Some 2000 \<rparr>))) (\<lambda>context.
     bind_res (pure_res (contextualSystemPrompt txt context)) (\<lambda>prompt.
     bind_res (pushSystemMessage orc k prompt context) (\<lambda>u.
     bind_res (pushUserMessage orc k userMessage) (\<lambda>u.
     bind_res (firstCall orc k options) (\<lambda>(supportsTools, tools, response).
       pure_res (Inr (supportsTools, tools, response, context))))))) s1 = (Inr x, st1)"
    unfolding openTurn_def by (erule bind_res_InrE)
  have h1: "has_conversation k s1"
    using first createOrGetConversation_has [of k orc "aeo_pageId options" JUndefined st]
    by (auto simp: returns_def split: prod.splits)
  have "keeps (has_conversation k) (bind_res (on_executor (ex_updateContext orc (aeo_pageId options)
                              (no_options\<lparr> maxContentLength := Some 2000 \<rparr>))) (\<lambda>context.
     bind_res (pure_res (contextualSystemPrompt txt context)) (\<lambda>prompt.
     bind_res (pushSystemMessage orc k prompt context) (\<lambda>u.
     bind_res (pushUserMessage orc k userMessage) (\<lambda>u.
     bind_res (firstCall orc k options) (\<lambda>(supportsTools, tools, response).
       pure_res (Inr (supportsTools, tools, response, context))))))))"
    by (intro keeps_bind keeps_on_executor keeps_pure keeps_pushSystemMessage
              keeps_pushUserMessage keeps_firstCall)
       (simp add: keeps_pure split: prod.splits)
  from keepsD [OF this h1 rest] show ?thesis .
qed

section \<open>A turn whose response carries tool calls\<close>

lemma sendMessage_tool_turn:
  assumes opened: "fst (openTurn orc txt k userMessage options st) = Inr (supports, tools, response, context)"
    and calls: "r_toolCalls response = Some calls" "calls \<noteq> []"
  shows "\<exists>added.
     messages_of k (snd (sendMessage orc txt k userMessage options st))
       = messages_of k (snd (openTurn orc txt k userMessage options st)) @ added \<and>
     map shape added = (Assistant, r_content response, Some calls, None)
        # map (toolShape txt) (zip calls (fst (executeToolCalls orc calls options
                                               (executor (snd (openTurn orc txt k userMessage options st)))))) \<and>
     resp_toolResults (fst (sendMessage orc txt k userMessage options st))
       = fst (executeToolCalls orc calls options (executor (snd (openTurn orc txt k userMessage options st)))) \<and>
     (if list_ex tr_success (fst (executeToolCalls orc calls options
                                   (executor (snd (openTurn orc txt k userMessage options st)))))
      then asked (snd (sendMessage orc txt k userMessage options st))
             = asked (snd (openTurn orc txt k userMessage options st))
               @ [Asked (aeo_serviceType options) supports
                    (messages_of k (snd (sendMessage orc txt k userMessage options st)))
                    (if supports then tools else [])]
      else asked (snd (sendMessage orc txt k userMessage options st))
             = asked (snd (openTurn orc txt k userMessage options st)) \<and>
           resp_message (fst (sendMessage orc txt k userMessage options st))
             = (if r_content response \<noteq> [] then r_content response else placeholder))"
proof -
  define st1 where "st1 = snd (openTurn orc txt k userMessage options st)"
  have op: "openTurn orc txt k userMessage options st = (Inr (supports, tools, response, context), st1)"
    using opened by (simp add: st1_def prod_eq_iff)
  have hc: "has_conversation k st1" using op by (rule openTurn_has_conversation)
  define ar where "ar =
     \<lparr> resp_message = (if r_content response \<noteq> [] then r_content response else placeholder),
       resp_toolResults = [], resp_contextUpdate = None,
       resp_screenshot = (if aeo_includeScreenshot options = Some True
                          then screenshot context else JUndefined) \<rparr>"
  obtain c rest where cs: "calls = c # rest" using calls(2) by (cases calls) auto
  from toolTurn_run [OF hc, of orc "txt" options supports tools response calls ar]
  obtain added final st' where
    run: "toolTurn orc txt k options supports tools response calls ar st1 = (Inr final, st')"
    and ms: "messages_of k st' = messages_of k st1 @ added"
    and sh: "map shape added = (Assistant, r_content response, Some calls, None)
        # map (toolShape txt) (zip calls (fst (executeToolCalls orc calls options (executor st1))))"
    and res: "resp_toolResults final = fst (executeToolCalls orc calls options (executor st1))"
    and ask: "(if list_ex tr_success (fst (executeToolCalls orc calls options (executor st1)))
      then asked st' = asked st1 @ [Asked (aeo_serviceType options) supports (messages_of k st')
                                     (if supports then tools else [])]
      else asked st' = asked st1 \<and> resp_message final = resp_message ar)"
    by (elim exE conjE) (rule that, assumption+)
  obtain now sn where n: "now_at orc st' = (now, sn)" by (cases "now_at orc st'")
  define st2 where "st2 = modify_conversation k (\<lambda>c. c\<lparr> conv_lastActivity := now \<rparr>) sn"
  have tried: "sendMessage_try orc txt k userMessage options st = (Inr final, st2)"
    unfolding sendMessage_try_def
    using op calls(1) run [unfolded cs ar_def] n
    by (simp add: bind_res_def cs st2_def)
  have sm: "sendMessage orc txt k userMessage options st = (final, st2)"
    using tried by (simp add: sendMessage_def)
  have cn: "conversations sn = conversations st'" and an: "asked sn = asked st'"
    using n now_at_frame [of orc st'] by simp_all
  have m2: "messages_of k st2 = messages_of k st'"
    unfolding st2_def using messages_of_modify [of "\<lambda>c. c\<lparr> conv_lastActivity := now \<rparr>" k k sn]
      messages_of_cong [OF cn] by simp
  have a2: "asked st2 = asked st'" using an by (simp add: st2_def)
  show ?thesis
    apply (rule exI [of _ added])
    using ms sh res ask m2 a2 unfolding sm st1_def [symmetric] by (simp add: ar_def)
qed

lemma zip_fst_same_length: "length xs = length ys \<Longrightarrow> map fst (zip xs ys) = xs"
  by (induction xs ys rule: list_induct2) auto

lemma tool_shapes:
  assumes "length results = length calls"
    and "map shape added = (Assistant, content, Some calls, None) # map (toolShape txt) (zip calls results)"
  shows "map m_role added = Assistant # replicate (length calls) Tool \<and>
         map m_toolCallId (filter (\<lambda>m. m_role m = Tool) added) = map (\<lambda>c. Some (tc_id c)) calls \<and>
         length (filter (\<lambda>m. m_role m = Tool) added) = length calls"
proof -
  obtain a tools where ad: "added = a # tools" using assms(2) by (cases added) auto
  have a: "shape a = (Assistant, content, Some calls, None)"
    and t: "map shape tools = map (toolShape txt) (zip calls results)"
    using assms(2) ad by simp_all
  have roles: "map m_role tools = replicate (length calls) Tool"
  proof -
    have "map m_role tools = map (fst \<circ> shape) tools" by (simp add: shape_def comp_def)
    also have "\<dots> = map fst (map (toolShape txt) (zip calls results))" using t by (simp add: map_map [symmetric] del: map_map)
    also have "\<dots> = replicate (length calls) Tool"
      using assms(1) by (simp add: toolShape_def comp_def map_replicate_const)
    finally show ?thesis .
  qed
  have ids: "map m_toolCallId tools = map (\<lambda>c. Some (tc_id c)) calls"
  proof -
    have "map m_toolCallId tools = map (snd \<circ> snd \<circ> snd \<circ> shape) tools" by (simp add: shape_def comp_def)
    also have "\<dots> = map (snd \<circ> snd \<circ> snd) (map (toolShape txt) (zip calls results))"
      using t by (simp add: map_map [symmetric] del: map_map)
    also have "\<dots> = map (\<lambda>c. Some (tc_id c)) (map fst (zip calls results))"
      by (simp add: toolShape_def comp_def)
    finally show ?thesis using zip_fst_same_length [OF assms(1) [symmetric]] by simp
  qed
  have all: "filter (\<lambda>m. m_role m = Tool) tools = tools"
  proof -
    have "\<forall>m\<in>set tools. m_role m = Tool"
      using roles by (metis (no_types, lifting) image_iff list.set_map in_set_replicate)
    then show ?thesis by simp
  qed
  have ar: "m_role a = Assistant" using a by (simp add: shape_def)
  have "length (map m_role tools) = length (replicate (length calls) Tool)"
    using roles by (rule arg_cong)
  then have lt: "length tools = length calls" by simp
  show ?thesis using ar roles ids all ad lt by simp
qed

text \<open>
  Claim C3. In a turn whose first response carries the tool calls \<open>calls\<close>, the messages
  the conversation had when the response arrived stay as they were, and what is appended
  after them is: the assistant message with the response's text and its tool calls, then one
  tool message per call, in the order of the calls, each with the formatted result of its
  call and the id of its call. So the tool messages are as many as the calls and their
  correlation ids are the ids of the calls, in order.
\<close>

theorem tool_messages_match_calls:
  assumes "fst (openTurn orc txt k userMessage options st) = Inr (supports, tools, response, context)"
    and "r_toolCalls response = Some calls"
    and "calls \<noteq> []"
  shows "take (length (messages_of k (snd (openTurn orc txt k userMessage options st))))
              (messages_of k (snd (sendMessage orc txt k userMessage options st)))
           = messages_of k (snd (openTurn orc txt k userMessage options st)) \<and>
         map shape (drop (length (messages_of k (snd (openTurn orc txt k userMessage options st))))
                      (messages_of k (snd (sendMessage orc txt k userMessage options st))))
           = (Assistant, r_content response, Some calls, None)
             # map (toolShape txt)
                 (zip calls (fst (executeToolCalls orc calls options
                                    (executor (snd (openTurn orc txt k userMessage options st)))))) \<and>
         map m_role (drop (length (messages_of k (snd (openTurn orc txt k userMessage options st))))
                      (messages_of k (snd (sendMessage orc txt k userMessage options st))))
           = Assistant # replicate (length calls) Tool \<and>
         map m_toolCallId
           (filter (\<lambda>m. m_role m = Tool)
              (drop (length (messages_of k (snd (openTurn orc txt k userMessage options st))))
                 (messages_of k (snd (sendMessage orc txt k userMessage options st)))))
           = map (\<lambda>c. Some (tc_id c)) calls \<and>
         length (filter (\<lambda>m. m_role m = Tool)
                   (drop (length (messages_of k (snd (openTurn orc txt k userMessage options st))))
                      (messages_of k (snd (sendMessage orc txt k userMessage options st)))))
           = length calls"
proof -
  from sendMessage_tool_turn [OF assms]
  obtain added where
    ms: "messages_of k (snd (sendMessage orc txt k userMessage options st))
           = messages_of k (snd (openTurn orc txt k userMessage options st)) @ added"
    and sh: "map shape added = (Assistant, r_content response, Some calls, None)
        # map (toolShape txt) (zip calls (fst (executeToolCalls orc calls options
                                               (executor (snd (openTurn orc txt k userMessage options st))))))"
    by (elim exE conjE) (rule that, assumption+)
  have len: "length (fst (executeToolCalls orc calls options
               (executor (snd (openTurn orc txt k userMessage options st))))) = length calls"
    by (rule executeToolCalls_length)
  from tool_shapes [OF len sh] show ?thesis unfolding ms using sh by simp
qed

text \<open>
  An instance: the backend answers the first request with a \<open>type\<close> call and a \<open>click\<close>
  call; after the turn the conversation holds the system and user messages, the assistant
  message, and two tool messages carrying the ids of the two calls in order.
\<close>

theorem tool_messages_match_calls_witness:
  "first_response (fst (openTurn batch_oracle example_texts ''c1'' ''go'' confirmed_turn fresh_agent))
     = Some batch_response \<and>
   r_toolCalls batch_response = Some batch_calls \<and> batch_calls \<noteq> [] \<and>
   map m_role (messages_of ''c1''
                 (snd (sendMessage batch_oracle example_texts ''c1'' ''go'' confirmed_turn fresh_agent)))
     = [System, User, Assistant, Tool, Tool] \<and>
   map m_toolCallId
     (filter (\<lambda>m. m_role m = Tool)
        (drop 2 (messages_of ''c1''
                   (snd (sendMessage batch_oracle example_texts ''c1'' ''go'' confirmed_turn fresh_agent)))))
     = [Some ''call_1'', Some ''call_2'']"
proof -
  let ?opened = "openTurn batch_oracle example_texts ''c1'' ''go'' confirmed_turn fresh_agent"
  let ?sent = "sendMessage batch_oracle example_texts ''c1'' ''go'' confirmed_turn fresh_agent"
  have first: "first_response (fst ?opened) = Some batch_response"
    by code_simp
  then obtain supports tools snapshot
    where opened: "fst ?opened = Inr (supports, tools, batch_response, snapshot)"
    by (cases "fst ?opened") (auto simp add: first_response_def)
  have calls: "r_toolCalls batch_response = Some batch_calls"
    by (simp add: batch_response_def)
  have some: "batch_calls \<noteq> []"
    by (simp add: batch_calls_def)
  have before: "map m_role (messages_of ''c1'' (snd ?opened)) = [System, User]"
    by code_simp
  from arg_cong [where f = length, OF before]
  have n: "length (messages_of ''c1'' (snd ?opened)) = 2"
    by simp
  note t = tool_messages_match_calls [OF opened calls some]
  have old: "map m_role (take 2 (messages_of ''c1'' (snd ?sent))) = [System, User]"
    using t [THEN conjunct1] before unfolding n by simp
  have new: "map m_role (drop 2 (messages_of ''c1'' (snd ?sent))) = [Assistant, Tool, Tool]"
    using t [THEN conjunct2, THEN conjunct2, THEN conjunct1] unfolding n
    by (simp add: batch_calls_def)
  have "map m_role (messages_of ''c1'' (snd ?sent))
          = map m_role (take 2 (messages_of ''c1'' (snd ?sent)))
            @ map m_role (drop 2 (messages_of ''c1'' (snd ?sent)))"
    by (simp only: map_append [symmetric] append_take_drop_id)
  then have roles: "map m_role (messages_of ''c1'' (snd ?sent)) = [System, User, Assistant, Tool, Tool]"
    unfolding old new by simp
  have ids: "map m_toolCallId (filter (\<lambda>m. m_role m = Tool) (drop 2 (messages_of ''c1'' (snd ?sent))))
               = [Some ''call_1'', Some ''call_2'']"
    using t [THEN conjunct2, THEN conjunct2, THEN conjunct2, THEN conjunct1] unfolding n
    by (simp add: batch_calls_def)
  show ?thesis
    using first calls some roles ids by (intro conjI)
qed

text \<open>
  Claim C4, as amended. In a turn whose first response carries the tool calls \<open>calls\<close>:
  the calls are executed one after the other in the order returned, each in the state the
  calls before it left; the results are returned in that order, whichever of them failed;
  the backend is asked again exactly when some result has \<open>success = true\<close>, once, with
  the conversation as it then stands; and when none succeeded the message returned is the
  first response's text, or the fixed placeholder when that text is empty.
\<close>

theorem follow_up_iff_some_success:
  assumes "fst (openTurn orc txt k userMessage options st) = Inr (supports, tools, response, context)"
    and "r_toolCalls response = Some calls"
    and "calls \<noteq> []"
  shows "resp_toolResults (fst (sendMessage orc txt k userMessage options st))
           = map (\<lambda>i. fst (executeTool orc (calls ! i) (toolOptions options)
                            (snd (executeToolCalls orc (take i calls) options
                                    (executor (snd (openTurn orc txt k userMessage options st)))))))
               [0..<length calls] \<and>
         asked (snd (sendMessage orc txt k userMessage options st))
           = asked (snd (openTurn orc txt k userMessage options st))
             @ (if list_ex tr_success (resp_toolResults (fst (sendMessage orc txt k userMessage options st)))
                then [Asked (aeo_serviceType options) supports
                        (messages_of k (snd (sendMessage orc txt k userMessage options st)))
                        (if supports then tools else [])]
                else []) \<and>
         (\<not> list_ex tr_success (resp_toolResults (fst (sendMessage orc txt k userMessage options st)))
          \<longrightarrow> resp_message (fst (sendMessage orc txt k userMessage options st))
                = (if r_content response \<noteq> [] then r_content response else placeholder))"
proof -
  from sendMessage_tool_turn [OF assms]
  obtain added where res: "resp_toolResults (fst (sendMessage orc txt k userMessage options st))
       = fst (executeToolCalls orc calls options (executor (snd (openTurn orc txt k userMessage options st))))"
    and ask: "(if list_ex tr_success (fst (executeToolCalls orc calls options
                                   (executor (snd (openTurn orc txt k userMessage options st)))))
      then asked (snd (sendMessage orc txt k userMessage options st))
             = asked (snd (openTurn orc txt k userMessage options st))
               @ [Asked (aeo_serviceType options) supports
                    (messages_of k (snd (sendMessage orc txt k userMessage options st)))
                    (if supports then tools else [])]
      else asked (snd (sendMessage orc txt k userMessage options st))
             = asked (snd (openTurn orc txt k userMessage options st)) \<and>
           resp_message (fst (sendMessage orc txt k userMessage options st))
             = (if r_content response \<noteq> [] then r_content response else placeholder))"
    by (elim exE conjE) (rule that, assumption+)
  have ord: "resp_toolResults (fst (sendMessage orc txt k userMessage options st))
           = map (\<lambda>i. fst (executeTool orc (calls ! i) (toolOptions options)
                            (snd (executeToolCalls orc (take i calls) options
                                    (executor (snd (openTurn orc txt k userMessage options st)))))))
               [0..<length calls]"
    unfolding res by (rule executeToolCalls_in_order)
  show ?thesis
  proof (cases "list_ex tr_success (fst (executeToolCalls orc calls options
                                   (executor (snd (openTurn orc txt k userMessage options st)))))")
    case True
    with ask have "asked (snd (sendMessage orc txt k userMessage options st))
             = asked (snd (openTurn orc txt k userMessage options st))
               @ [Asked (aeo_serviceType options) supports
                    (messages_of k (snd (sendMessage orc txt k userMessage options st)))
                    (if supports then tools else [])]"
      by (simp only: if_True)
    then show ?thesis using ord True unfolding res by (simp only: if_True simp_thms)
  next
    case False
    with ask have "asked (snd (sendMessage orc txt k userMessage options st))
             = asked (snd (openTurn orc txt k userMessage options st)) \<and>
           resp_message (fst (sendMessage orc txt k userMessage options st))
             = (if r_content response \<noteq> [] then r_content response else placeholder)"
      by (simp only: if_False)
    then show ?thesis using ord False unfolding res by (simp only: if_False simp_thms append_Nil2)
  qed
qed

text \<open>
  Two instances with the same two calls. Without confirmation both calls are refused:
  nothing further is asked of the backend and the placeholder is returned. With confirmation
  the first call fails and the second succeeds: both results are returned in order and the
  backend is asked once more.
\<close>

theorem follow_up_iff_some_success_witness:
  "first_response (fst (openTurn batch_oracle example_texts ''c1'' ''go'' plain_turn fresh_agent))
     = Some batch_response \<and>
   r_toolCalls batch_response = Some batch_calls \<and> batch_calls \<noteq> [] \<and>
   map tr_success
     (resp_toolResults (fst (sendMessage batch_oracle example_texts ''c1'' ''go'' plain_turn fresh_agent)))
     = [False, False] \<and>
   \<not> list_ex tr_success
       (resp_toolResults (fst (sendMessage batch_oracle example_texts ''c1'' ''go'' plain_turn fresh_agent))) \<and>
   asked (snd (sendMessage batch_oracle example_texts ''c1'' ''go'' plain_turn fresh_agent))
     = asked (snd (openTurn batch_oracle example_texts ''c1'' ''go'' plain_turn fresh_agent)) \<and>
   resp_message (fst (sendMessage batch_oracle example_texts ''c1'' ''go'' plain_turn fresh_agent))
     = placeholder \<and>
   first_response (fst (openTurn batch_oracle example_texts ''c1'' ''go'' confirmed_turn fresh_agent))
     = Some batch_response \<and>
   map tr_success
     (resp_toolResults (fst (sendMessage batch_oracle example_texts ''c1'' ''go'' confirmed_turn fresh_agent)))
     = [False, True] \<and>
   length (asked (snd (sendMessage batch_oracle example_texts ''c1'' ''go'' confirmed_turn fresh_agent)))
     = Suc (length (asked (snd (openTurn batch_oracle example_texts ''c1'' ''go'' confirmed_turn fresh_agent))))"
proof -
  let ?opened = "openTurn batch_oracle example_texts ''c1'' ''go'' plain_turn fresh_agent"
  let ?sent = "sendMessage batch_oracle example_texts ''c1'' ''go'' plain_turn fresh_agent"
  let ?opened' = "openTurn batch_oracle example_texts ''c1'' ''go'' confirmed_turn fresh_agent"
  let ?sent' = "sendMessage batch_oracle example_texts ''c1'' ''go'' confirmed_turn fresh_agent"
  have calls: "r_toolCalls batch_response = Some batch_calls"
    by (simp add: batch_response_def)
  have some: "batch_calls \<noteq> []"
    by (simp add: batch_calls_def)
  have silent: "r_content batch_response = []"
    by (simp add: batch_response_def)
  \<comment> \<open>neither call passes the gate\<close>
  have first: "first_response (fst ?opened) = Some batch_response"
    by code_simp
  then obtain supports tools snapshot
    where opened: "fst ?opened = Inr (supports, tools, batch_response, snapshot)"
    by (cases "fst ?opened") (auto simp add: first_response_def)
  have run: "map tr_success (fst (executeToolCalls batch_oracle batch_calls plain_turn (executor (snd ?opened))))
               = [False, False]"
    by code_simp
  note t = follow_up_iff_some_success [OF opened calls some]
  have results: "map tr_success (resp_toolResults (fst ?sent)) = [False, False]"
    using t [THEN conjunct1] run by (simp only: executeToolCalls_in_order [symmetric])
  have none: "\<not> list_ex tr_success (resp_toolResults (fst ?sent))"
    using results by (auto simp add: list_ex_iff)
  have same: "asked (snd ?sent) = asked (snd ?opened)"
    using t [THEN conjunct2, THEN conjunct1] none by (simp only: if_False append_Nil2)
  have message: "resp_message (fst ?sent) = placeholder"
    using t [THEN conjunct2, THEN conjunct2] none silent by simp
  \<comment> \<open>the first call fails, the second succeeds\<close>
  have first': "first_response (fst ?opened') = Some batch_response"
    by code_simp
  then obtain supports' tools' snapshot'
    where opened': "fst ?opened' = Inr (supports', tools', batch_response, snapshot')"
    by (cases "fst ?opened'") (auto simp add: first_response_def)
  have run': "map tr_success (fst (executeToolCalls batch_oracle batch_calls confirmed_turn (executor (snd ?opened'))))
               = [False, True]"
    by code_simp
  note t' = follow_up_iff_some_success [OF opened' calls some]
  have results': "map tr_success (resp_toolResults (fst ?sent')) = [False, True]"
    using t' [THEN conjunct1] run' by (simp only: executeToolCalls_in_order [symmetric])
  have one: "list_ex tr_success (resp_toolResults (fst ?sent'))"
    using results' by (auto simp add: list_ex_iff)
  have again: "length (asked (snd ?sent')) = Suc (length (asked (snd ?opened')))"
    using t' [THEN conjunct2, THEN conjunct1] one by simp
  show ?thesis
    using first calls some results none same message first' results' again by (intro conjI)
qed

text \<open>
  The claim as stated, that the message returned when no call succeeded is the first
  response's text, fails when that text is empty: the backend answers with tool calls and
  no text, both calls are refused by the gate, and the message returned is the placeholder.
\<close>

theorem follow_up_placeholder_counterexample:
  "r_content batch_response = [] \<and>
   turn_view ''c1'' (sendMessage batch_oracle example_texts ''c1'' ''go'' plain_turn fresh_agent)
     = (\<lparr> resp_message = ''I understand. Let me help you with that.'',
         resp_toolResults =
           [\<lparr> tr_success = False, tr_data = JUndefined,
               tr_error = Some ''Tool type requires moderate permission level'',
               tr_screenshot = JUndefined, tr_message = Some ''Please confirm execution of type'' \<rparr>,
            \<lparr> tr_success = False, tr_data = JUndefined,
               tr_error = Some ''Tool click requires moderate permission level'',
               tr_screenshot = JUndefined, tr_message = Some ''Please confirm execution of click'' \<rparr>],
         resp_contextUpdate =
           Some (''Current Page: Untitled'' @ [CHR 0x0A] @ ''URL: undefined'' @ [CHR 0x0A]
                 @ ''Domain: undefined'' @ [CHR 0x0A] @ ''Content: No content available''),
         resp_screenshot = JUndefined \<rparr>,
       [(System, ''PROMPT'', None, None), (User, ''go'', None, None),
        (Assistant, [], Some batch_calls, None),
        (Tool, ''Error: Tool type requires moderate permission level'', None, Some ''call_1''),
        (Tool, ''Error: Tool click requires moderate permission level'', None, Some ''call_2'')])"
  by code_simp

section \<open>The content summary\<close>

lemma is_space_sp [simp]: "is_space (CHR '' '')" by (simp add: is_space_def)
lemma is_newline_space: "is_newline c \<Longrightarrow> is_space c" by (simp add: is_newline_def is_space_def)

lemma replace_runs_id: "\<forall>c\<in>set s. \<not> P c \<Longrightarrow> replace_runs P s = s"
  by (induction s) auto

lemma replace_runs_space_set: "c \<in> set (replace_runs is_space s) \<Longrightarrow> is_space c \<Longrightarrow> c = CHR '' ''"
  by (induction is_space s rule: replace_runs.induct) (auto split: if_splits)

lemma replace_newline_noop: "replace_runs is_newline (replace_runs is_space s) = replace_runs is_space s"
proof (rule replace_runs_id, rule ballI)
  fix c assume c: "c \<in> set (replace_runs is_space s)"
  show "\<not> is_newline c"
  proof
    assume n: "is_newline c"
    then have "c = CHR '' ''" using c replace_runs_space_set is_newline_space by blast
    with n show False by (simp add: is_newline_def)
  qed
qed

lemma replace_runs_nonws_prefix:
  "\<forall>c\<in>set w. \<not> P c \<Longrightarrow> replace_runs P (w @ r) = w @ replace_runs P r"
  by (induction w) auto

lemma join_with_Cons: "ws \<noteq> [] \<Longrightarrow> join_with sep (w # ws) = w @ sep @ join_with sep ws"
  by (cases ws) auto

lemma ws_words_dropWhile: "ws_words (dropWhile is_space s) = ws_words s"
  by (induction s) auto

lemma dropWhile_head: "dropWhile P xs = y # ys \<Longrightarrow> \<not> P y"
  using hd_dropWhile[of P xs] by auto

lemma dropWhile_all: "dropWhile P xs = [] \<Longrightarrow> \<forall>x\<in>set xs. P x"
  by (induction xs) (auto split: if_splits)

lemma ws_words_all_space: "\<forall>x\<in>set s. is_space x \<Longrightarrow> ws_words s = []"
  by (induction s rule: ws_words.induct) (auto dest: set_dropWhileD)

lemma replace_runs_dropWhile: "dropWhile is_space (replace_runs is_space s) = replace_runs is_space (dropWhile is_space s)"
proof (cases s)
  case Nil then show ?thesis by simp
next
  case (Cons c cs)
  show ?thesis
  proof (cases "is_space c")
    case True
    have "dropWhile is_space (replace_runs is_space (dropWhile is_space cs)) = replace_runs is_space (dropWhile is_space cs)"
    proof (cases "dropWhile is_space cs")
      case Nil show ?thesis unfolding Nil by simp
    next
      case (Cons y ys)
      then have "\<not> is_space y" by (rule dropWhile_head)
      then show ?thesis unfolding Cons by simp
    qed
    with True Cons show ?thesis by simp
  next
    case False with Cons show ?thesis by simp
  qed
qed

lemma ws_words_nonempty: "s \<noteq> [] \<Longrightarrow> \<not> is_space (hd s) \<Longrightarrow> ws_words s \<noteq> []"
  by (cases s) auto

lemma replace_runs_shape:
  "s \<noteq> [] \<Longrightarrow> \<not> is_space (hd s) \<Longrightarrow> replace_runs is_space s = join_with '' '' (ws_words s) @ ends_ws s"
proof (induction s rule: length_induct)
  case (1 s)
  then obtain c cs where s: "s = c # cs" and c: "\<not> is_space c" by (cases s) auto
  define w where "w = c # takeWhile (\<lambda>x. \<not> is_space x) cs"
  define r where "r = dropWhile (\<lambda>x. \<not> is_space x) cs"
  have sw: "s = w @ r" by (simp add: s w_def r_def)
  have wn: "\<forall>x\<in>set w. \<not> is_space x" using c by (auto simp: w_def dest: set_takeWhileD)
  have words: "ws_words s = w # ws_words r" using c by (simp add: s w_def r_def)
  have R: "replace_runs is_space s = w @ replace_runs is_space r"
    unfolding sw using wn by (rule replace_runs_nonws_prefix)
  show ?case
  proof (cases r)
    case Nil
    then show ?thesis using R words wn sw by (auto simp: ends_ws_def w_def)
  next
    case (Cons d ds)
    have d: "is_space d" using dropWhile_head[of "\<lambda>x. \<not> is_space x" cs d ds] Cons by (simp add: r_def)
    define t where "t = dropWhile is_space ds"
    have Rr: "replace_runs is_space r = CHR '' '' # replace_runs is_space t" using d Cons by (simp add: t_def)
    have wr: "ws_words r = ws_words t" using d Cons by (simp add: t_def)
    show ?thesis
    proof (cases t)
      case Nil
      have "\<forall>x\<in>set ds. is_space x" using Nil unfolding t_def by (rule dropWhile_all)
      then have "is_space (last s)" using d Cons sw by (auto simp: last_append)
      then show ?thesis using R Rr wr Nil words s by (simp add: ends_ws_def)
    next
      case (Cons e es)
      have e: "\<not> is_space (hd t)" using dropWhile_head[of is_space ds e es] Cons by (simp add: t_def)
      have lt: "length t < length s" using sw \<open>r = d # ds\<close> length_dropWhile_le[of is_space ds] by (simp add: t_def)
      have tne: "t \<noteq> []" using Cons by simp
      have IH: "replace_runs is_space t = join_with '' '' (ws_words t) @ ends_ws t"
        using 1 lt e tne by blast
      have tn: "ws_words t \<noteq> []" using ws_words_nonempty e tne by blast
      have suf: "\<exists>p. s = p @ t" using sw \<open>r = d # ds\<close> unfolding t_def
        by (metis append.assoc append_Cons takeWhile_dropWhile_id)
      then have "ends_ws s = ends_ws t" using tne by (auto simp: ends_ws_def)
      then show ?thesis using R Rr wr IH words tn by (simp add: join_with_Cons)
    qed
  qed
qed

lemma join_with_last:
  "ws \<noteq> [] \<Longrightarrow> \<forall>w\<in>set ws. w \<noteq> [] \<and> \<not> is_space (last w) \<Longrightarrow>
   join_with sep ws \<noteq> [] \<and> \<not> is_space (last (join_with sep ws))"
  by (induction sep ws rule: join_with.induct) auto

lemma ws_words_last: "w \<in> set (ws_words s) \<Longrightarrow> w \<noteq> [] \<and> \<not> is_space (last w)"
proof (induction s rule: ws_words.induct)
  case 1 then show ?case by simp
next
  case (2 c cs)
  then show ?case
    by (auto split: if_splits dest: set_takeWhileD simp: last_ConsR) (metis last_in_set set_takeWhileD)+
qed

lemma clean_content_words: "clean_content s = join_with '' '' (ws_words s)"
proof -
  define t where "t = dropWhile is_space s"
  have c: "clean_content s = rev (dropWhile is_space (rev (replace_runs is_space t)))"
    by (simp add: clean_content_def trim_def replace_newline_noop replace_runs_dropWhile t_def)
  show ?thesis
  proof (cases t)
    case Nil
    then have "ws_words s = []" unfolding t_def by (intro ws_words_all_space dropWhile_all)
    then show ?thesis using c Nil by simp
  next
    case (Cons e es)
    have e: "\<not> is_space (hd t)" using dropWhile_head[of is_space s e es] Cons by (simp add: t_def)
    have tne: "t \<noteq> []" using Cons by simp
    have sh: "replace_runs is_space t = join_with '' '' (ws_words t) @ ends_ws t"
      using replace_runs_shape e tne by blast
    have ne: "ws_words t \<noteq> []" using ws_words_nonempty e tne by blast
    have l: "join_with '' '' (ws_words t) \<noteq> [] \<and> \<not> is_space (last (join_with '' '' (ws_words t)))"
      using join_with_last[OF ne] ws_words_last by blast
    then have "dropWhile is_space (rev (join_with '' '' (ws_words t))) = rev (join_with '' '' (ws_words t))"
      by (cases "rev (join_with '' '' (ws_words t))") (auto simp: last_rev hd_rev[symmetric])
    then have "rev (dropWhile is_space (rev (replace_runs is_space t))) = join_with '' '' (ws_words t)"
      unfolding sh by (auto simp: ends_ws_def)
    then show ?thesis using c ws_words_dropWhile[of s] by (simp add: t_def)
  qed
qed


lemma lastIndexOf_neg: "lastIndexOf s c < 0 \<longleftrightarrow> c \<notin> set s"
  by (induction s) (auto simp: Let_def)

lemma lastIndexOf_lt: "lastIndexOf s c < int (length s)"
  by (induction s) (auto simp: Let_def)

lemma lastIndexOf_at: "0 \<le> lastIndexOf s c \<Longrightarrow> s ! nat (lastIndexOf s c) = c"
proof (induction s)
  case Nil then show ?case by simp
next
  case (Cons x xs)
  show ?case
  proof (cases "0 \<le> lastIndexOf xs c")
    case True
    then have "nat (lastIndexOf xs c + 1) = Suc (nat (lastIndexOf xs c))" by simp
    with True Cons.IH show ?thesis by (simp add: Let_def)
  next
    case False
    with Cons.prems show ?thesis by (simp add: Let_def split: if_splits)
  qed
qed

lemma lastIndexOf_after: "j < length s \<Longrightarrow> lastIndexOf s c < int j \<Longrightarrow> s ! j \<noteq> c"
proof (induction s arbitrary: j)
  case Nil then show ?case by simp
next
  case (Cons x xs)
  show ?case
  proof (cases j)
    case 0
    with Cons.prems show ?thesis by (simp add: Let_def split: if_splits)
  next
    case (Suc k)
    with Cons.prems have "k < length xs" and "lastIndexOf xs c < int k"
      by (auto simp: Let_def split: if_splits)
    with Cons.IH Suc show ?thesis by simp
  qed
qed

lemma filter_upt_last:
  assumes "i < n" and "P i" and "\<forall>j. i < j \<and> j < n \<longrightarrow> \<not> P j"
  shows "filter P [0..<n] \<noteq> [] \<and> last (filter P [0..<n]) = i"
proof -
  have "[0..<n] = [0..<Suc i] @ [Suc i..<n]"
    using assms(1) by (metis Suc_leI le0 upt_add_eq_append le_add_diff_inverse)
  moreover have "filter P [Suc i..<n] = []" using assms(3) by (auto simp: filter_empty_conv)
  ultimately have "filter P [0..<n] = filter P [0..<i] @ [i]" using assms(2) by simp
  then show ?thesis by simp
qed

text \<open>
  Claim C5, as amended. For content that is not empty and whose cleaned form is longer than
  \<open>maxContentLength\<close>: the cleaned form is the content's words joined by single spaces;
  the summary is the cleaned form cut at the last space of the truncation window whose index
  is strictly greater than four fifths of \<open>maxContentLength\<close>, or cut at
  \<open>maxContentLength\<close> when the window has no such space, followed by \<open>...\<close>; and it is
  at most \<open>maxContentLength + 3\<close> characters long.
\<close>

theorem createContentSummary_backup:
  assumes "content \<noteq> []" and "maxLength < length (clean_content content)"
  shows "clean_content content = spec_collapse content \<and>
         createContentSummary content (Some maxLength) =
           (case backup_points (clean_content content) maxLength of
              [] \<Rightarrow> take maxLength (clean_content content) @ ''...''
            | i # is \<Rightarrow> take (last (i # is)) (clean_content content) @ ''...'') \<and>
         length (createContentSummary content (Some maxLength)) \<le> maxLength + 3"
proof -
  define cleaned where "cleaned = clean_content content"
  define tr where "tr = take maxLength cleaned"
  define ls where "ls = lastIndexOf tr (CHR '' '')"
  have len: "length tr = maxLength" using assms(2) by (simp add: tr_def cleaned_def)
  have out: "createContentSummary content (Some maxLength) =
      (if 4 * int maxLength < 5 * ls then take (nat ls) tr @ ''...'' else tr @ ''...'')"
    using assms by (simp add: createContentSummary_def Let_def cleaned_def tr_def ls_def)
  have bound: "length (createContentSummary content (Some maxLength)) \<le> maxLength + 3"
    unfolding out using len by simp
  have pts: "(case backup_points cleaned maxLength of
              [] \<Rightarrow> take maxLength cleaned @ ''...''
            | i # is \<Rightarrow> take (last (i # is)) cleaned @ ''...'') =
      (if 4 * int maxLength < 5 * ls then take (nat ls) tr @ ''...'' else tr @ ''...'')"
  proof (cases "4 * int maxLength < 5 * ls")
    case True
    define i where "i = nat ls"
    have ls0: "0 \<le> ls" using True by simp
    have ilt: "i < maxLength" using lastIndexOf_lt[of tr "CHR '' ''"] ls0 len by (simp add: i_def ls_def)
    have "tr ! i = CHR '' ''" using lastIndexOf_at ls0 by (simp add: i_def ls_def)
    then have at: "cleaned ! i = CHR '' ''" using ilt by (simp add: tr_def)
    have after: "\<forall>j. i < j \<and> j < maxLength \<longrightarrow> \<not> (cleaned ! j = CHR '' '' \<and> 4 * maxLength < 5 * j)"
    proof (intro allI impI)
      fix j assume j: "i < j \<and> j < maxLength"
      then have "lastIndexOf tr (CHR '' '') < int j" using ls0 unfolding i_def ls_def by linarith
      then have "tr ! j \<noteq> CHR '' ''" using lastIndexOf_after j len by simp
      then show "\<not> (cleaned ! j = CHR '' '' \<and> 4 * maxLength < 5 * j)" using j by (simp add: tr_def)
    qed
    have Pi: "cleaned ! i = CHR '' '' \<and> 4 * maxLength < 5 * i" using at True ls0 by (simp add: i_def)
    have "backup_points cleaned maxLength \<noteq> [] \<and> last (backup_points cleaned maxLength) = i"
      unfolding backup_points_def using filter_upt_last[OF ilt, of "\<lambda>i. cleaned ! i = CHR '' '' \<and> 4 * maxLength < 5 * i"] Pi after
      by blast
    moreover have "take i tr = take i cleaned" using ilt by (simp add: tr_def min_def)
    ultimately show ?thesis using True by (auto simp: i_def split: list.splits)
  next
    case False
    have "backup_points cleaned maxLength = []"
    proof (rule ccontr)
      assume "backup_points cleaned maxLength \<noteq> []"
      then obtain i where i: "i < maxLength" "cleaned ! i = CHR '' ''" "4 * maxLength < 5 * i"
        by (auto simp: backup_points_def filter_empty_conv)
      have "tr ! i = CHR '' ''" using i by (simp add: tr_def)
      then have "\<not> ls < int i" using lastIndexOf_after[of i tr "CHR '' ''"] i len by (auto simp: ls_def)
      with i(3) False show False by simp
    qed
    then show ?thesis using False by (simp add: tr_def)
  qed
  have A: "clean_content content = spec_collapse content"
    unfolding spec_collapse_def by (rule clean_content_words)
  from out pts have B: "createContentSummary content (Some maxLength) =
           (case backup_points (clean_content content) maxLength of
              [] \<Rightarrow> take maxLength (clean_content content) @ ''...''
            | i # is \<Rightarrow> take (last (i # is)) (clean_content content) @ ''...'')"
    unfolding cleaned_def by simp
  show ?thesis using A B bound by blast
qed

theorem createContentSummary_backup_witness:
  "''aaaaaaaaa bbbb'' \<noteq> [] \<and> 10 < length (clean_content ''aaaaaaaaa bbbb'') \<and>
   clean_content ''aaaaaaaaa bbbb'' = spec_collapse ''aaaaaaaaa bbbb'' \<and>
   createContentSummary ''aaaaaaaaa bbbb'' (Some 10) = ''aaaaaaaaa...'' \<and>
   length (createContentSummary ''aaaaaaaaa bbbb'' (Some 10)) \<le> 10 + 3"
proof -
  have h1: "''aaaaaaaaa bbbb'' \<noteq> []" by simp
  have h2: "10 < length (clean_content ''aaaaaaaaa bbbb'')" by code_simp
  have e: "createContentSummary ''aaaaaaaaa bbbb'' (Some 10) = ''aaaaaaaaa...''" by code_simp
  note t = createContentSummary_backup [OF h1 h2]
  note c1 = t [THEN conjunct1]
  note c3 = t [THEN conjunct2, THEN conjunct2]
  show ?thesis using h1 h2 c1 e c3 by (intro conjI)
qed

text \<open>
  The claim's own example fails: 1000 characters whose only space is at position 40, with
  \<open>maxContentLength = 50\<close>. The space is at exactly four fifths of the window, the code
  asks for strictly more, and the summary is the first 50 characters and the ellipsis: 53
  characters that do not end at the space.
\<close>

theorem createContentSummary_example_counterexample:
  "length (replicate 40 (CHR ''a'') @ '' '' @ replicate 959 (CHR ''b'')) = 1000 \<and>
   (replicate 40 (CHR ''a'') @ '' '' @ replicate 959 (CHR ''b'')) ! 40 = CHR '' '' \<and>
   createContentSummary (replicate 40 (CHR ''a'') @ '' '' @ replicate 959 (CHR ''b'')) (Some 50)
     = replicate 40 (CHR ''a'') @ '' '' @ replicate 9 (CHR ''b'') @ ''...'' \<and>
   length (createContentSummary (replicate 40 (CHR ''a'') @ '' '' @ replicate 959 (CHR ''b'')) (Some 50))
     = 53"
proof -
  have e: "createContentSummary (replicate 40 (CHR ''a'') @ '' '' @ replicate 959 (CHR ''b'')) (Some 50)
     = replicate 40 (CHR ''a'') @ '' '' @ replicate 9 (CHR ''b'') @ ''...''"
    by code_simp
  have n: "(replicate 40 (CHR ''a'') @ '' '' @ replicate 959 (CHR ''b'')) ! 40 = CHR '' ''"
    by (simp add: nth_append)
  show ?thesis unfolding e using n by simp
qed

section \<open>Context extraction\<close>

text \<open>
  Claim C6. For every driver, page session, options value and state, \<open>extractContext\<close>
  returns a snapshot and never an exception. When its \<open>try\<close> block returns a snapshot,
  that is the result; when the block throws an error, the result is the minimal snapshot:
  its \<open>error\<close> field holds the error's message, its five element collections are empty,
  and its identity fields are \<open>unknown\<close>.
\<close>

theorem extractContext_never_throws:
  "(case fst (extractContext deps pageId options w) of
      Inl e \<Rightarrow> False
    | Inr context \<Rightarrow>
        (case fst (extractContext_try deps pageId options w) of
           Inr built \<Rightarrow> context = built
         | Inl msg \<Rightarrow>
             error context = JStr msg \<and>
             clickableElements context = JArr [] \<and>
             formFields context = JArr [] \<and>
             links context = JArr [] \<and>
             buttons context = JArr [] \<and>
             inputs context = JArr [] \<and>
             currentUrl context = JStr ''unknown'' \<and>
             pageContent context = JStr [] \<and>
             canGoForward context = JBool False \<and>
             navigationHistory context = JArr []))"
  by (simp add: extractContext_def minimalContext_def split: prod.splits sum.splits)

theorem extractContext_never_throws_witness:
  "fst (extractContext_try closed_driver ''tab'' no_options ()) = Inl ''Target closed'' \<and>
   (case fst (extractContext closed_driver ''tab'' no_options ()) of
      Inl e \<Rightarrow> False
    | Inr context \<Rightarrow> error context = JStr ''Target closed'' \<and> buttons context = JArr [])"
proof -
  have t: "fst (extractContext_try closed_driver ''tab'' no_options ()) = Inl ''Target closed''"
    by (simp add: extractContext_try_def closed_driver_def bind_res_def returns_def
                  getBasicPageInfo_def)
  from extractContext_never_throws [of closed_driver "''tab''" no_options "()"] t
  show ?thesis by (simp split: sum.splits)
qed

section \<open>Navigation affordances\<close>

lemma evaluateScript_wraps:
  "ar_success (fst (evaluateScript orc pageId scr w)) \<Longrightarrow>
   \<exists>v. ar_data (fst (evaluateScript orc pageId scr w)) = JObj [(''result'', v)]"
  by (auto simp: evaluateScript_def Let_def page_missing_def ar_fail_def ar_ok_def page_call_def
           split: if_splits sum.splits)

text \<open>
  Whenever the navigation probe succeeds, what \<open>getNavigationState\<close> returns is the
  driver's wrapper object \<open>{ result: ... }\<close>, which has no \<open>canGoForward\<close> and no \<open>history\<close>.
\<close>

lemma getNavigationState_wrapped:
  assumes "pageId \<in> set (pages w)"
    and "page_reply orc (trace (record_event (Drv (EvaluateScript pageId NavigationStateScript)) w))
           pageId (Evaluate NavigationStateScript) = Inr v"
  shows "fst (getNavigationState (puppeteer orc) pageId w) = Inr (JObj [(''result'', v)])"
  using assms
  by (simp add: getNavigationState_def puppeteer_def bind_res_def returns_def pure_res_def
                evaluateScript_def Let_def page_call_def record_event_def ar_ok_def)

text \<open>
  Claim C8 fails on the code where the probe succeeds. On a page whose probe evaluates to
  \<open>{ canGoBack: true, canGoForward: false, history: [] }\<close>, the snapshot's \<open>canGoForward\<close>
  and \<open>navigationHistory\<close> are undefined, not false and the empty list; on a page session
  that does not exist (the probe fails) they are false and the empty list.
\<close>

theorem navigation_state_unwrapped:
  "fst (getNavigationState (puppeteer probe_oracle) ''tab'' tab_world)
     = Inr (JObj [(''result'',
             JObj [(''canGoBack'', JBool True), (''canGoForward'', JBool False), (''history'', JArr [])])]) \<and>
   navigation_of (fst (extractContext (puppeteer probe_oracle) ''tab'' no_options tab_world))
     = Some (JUndefined, JUndefined, JUndefined, JUndefined) \<and>
   navigation_of (fst (extractContext (puppeteer probe_oracle) ''gone'' no_options tab_world))
     = Some (JBool False, JBool False, JArr [], JUndefined)"
  by code_simp

section \<open>The conversation store\<close>

lemma store_delete_get_same: "store_get (store_delete s k) k = None"
  by (induction s) (auto simp: store_get_def store_delete_def)

lemma store_delete_get_other: "k \<noteq> j \<Longrightarrow> store_get (store_delete s k) j = store_get s j"
  by (induction s) (auto simp: store_get_def store_delete_def)

lemma store_delete_values:
  "list_all (\<lambda>(k, c). conv_id c = k) s \<Longrightarrow>
   map snd (store_delete s i) = filter (\<lambda>c. conv_id c \<noteq> i) (map snd s)"
  by (induction s) (auto simp: store_delete_def)

lemma store_delete_wf: "store_wf s \<Longrightarrow> store_wf (store_delete s k)"
  by (induction s) (auto simp: store_wf_def store_delete_def)

lemma store_set_wf: "store_wf s \<Longrightarrow> conv_id c = k \<Longrightarrow> store_wf (store_set s k c)"
proof -
  assume wf: "store_wf s" and c: "conv_id c = k"
  have keys: "map fst (map (\<lambda>(k', c'). if k' = k then (k', c) else (k', c')) s) = map fst s"
    by (induction s) auto
  have vals: "list_all (\<lambda>(k, c). conv_id c = k) s \<Longrightarrow>
    list_all (\<lambda>(k, c). conv_id c = k) (map (\<lambda>(k', c'). if k' = k then (k', c) else (k', c')) s)"
    using c by (induction s) (auto split: if_splits)
  show ?thesis
  proof (cases "k \<in> fst ` set s")
    case True
    have d: "distinct (map fst (map (\<lambda>(k', c'). if k' = k then (k', c) else (k', c')) s))"
      unfolding keys using wf by (simp add: store_wf_def)
    have v: "list_all (\<lambda>(k, c). conv_id c = k)
               (map (\<lambda>(k', c'). if k' = k then (k', c) else (k', c')) s)"
      using vals wf by (simp add: store_wf_def)
    have eq: "store_set s k c = map (\<lambda>(k', c'). if k' = k then (k', c) else (k', c')) s"
      using True by (simp add: store_set_def)
    show ?thesis unfolding store_wf_def eq by (rule conjI [OF v d])
  next
    case False
    then show ?thesis using wf c by (simp add: store_wf_def store_set_def)
  qed
qed

text \<open>
  The writers of the map keep it well-formed: a mutation of a stored conversation that keeps
  its id, and the creation of a conversation under its own id.
\<close>

lemma modify_conversation_wf:
  assumes "store_wf (conversations st)" and "\<And>c. conv_id (f c) = conv_id c"
  shows "store_wf (conversations (modify_conversation k f st))"
proof -
  have keys: "map fst (map (\<lambda>(k', c). if k' = k then (k', f c) else (k', c)) s) = map fst s" for s
    by (induction s) auto
  have vals: "list_all (\<lambda>(k, c). conv_id c = k) s \<Longrightarrow>
      list_all (\<lambda>(k, c). conv_id c = k) (map (\<lambda>(k', c). if k' = k then (k', f c) else (k', c)) s)" for s
    using assms(2) by (induction s) (auto split: if_splits)
  have d: "distinct (map fst (map (\<lambda>(k', c). if k' = k then (k', f c) else (k', c)) (conversations st)))"
    unfolding keys using assms(1) by (simp add: store_wf_def)
  have v: "list_all (\<lambda>(k, c). conv_id c = k)
             (map (\<lambda>(k', c). if k' = k then (k', f c) else (k', c)) (conversations st))"
    using assms(1) vals [of "conversations st"] by (simp add: store_wf_def)
  have eq: "conversations (modify_conversation k f st)
              = map (\<lambda>(k', c). if k' = k then (k', f c) else (k', c)) (conversations st)"
    by (simp add: modify_conversation_def)
  show ?thesis
    unfolding store_wf_def eq by (rule conjI [OF v d])
qed

lemma push_message_wf:
  "store_wf (conversations st) \<Longrightarrow> store_wf (conversations (push_message k m st))"
  unfolding push_message_def by (rule modify_conversation_wf) simp_all

lemma now_at_conversations:
  "now_at orc st = (now, st1) \<Longrightarrow> conversations st1 = conversations st"
  by (auto simp add: now_at_def on_world_def split: prod.splits)

lemma createOrGetConversation_wf:
  assumes "store_wf (conversations st)"
  shows "store_wf (conversations (snd (createOrGetConversation orc k pageId initialUrl st)))"
proof (cases "store_get (conversations st) k")
  case None
  obtain created st1 where a: "now_at orc st = (created, st1)"
    by (cases "now_at orc st")
  obtain active st2 where b: "now_at orc st1 = (active, st2)"
    by (cases "now_at orc st1")
  have same: "conversations st2 = conversations st"
    using now_at_conversations [OF a] now_at_conversations [OF b] by (simp only:)
  let ?c = "\<lparr> conv_id = k, conv_messages = [], conv_currentUrl = initialUrl,
              conv_pageId = pageId, conv_createdAt = created, conv_lastActivity = active \<rparr>"
  have made: "conversations (snd (createOrGetConversation orc k pageId initialUrl st))
                = store_set (conversations st) k ?c"
    using None a b same by (simp add: createOrGetConversation_def Let_def)
  have "conv_id ?c = k"
    by simp
  from store_set_wf [OF assms this] show ?thesis
    unfolding made .
next
  case (Some c)
  obtain now st1 where a: "now_at orc st = (now, st1)"
    by (cases "now_at orc st")
  have wf1: "store_wf (conversations st1)"
    using now_at_conversations [OF a] assms by (simp only:)
  have made: "snd (createOrGetConversation orc k pageId initialUrl st)
                = modify_conversation k (\<lambda>c. c\<lparr> conv_lastActivity := now \<rparr>) st1"
    using Some a by (simp add: createOrGetConversation_def)
  show ?thesis
    unfolding made by (rule modify_conversation_wf [OF wf1]) simp
qed

lemma active_after_delete:
  assumes "list_all (\<lambda>(k, c). conv_id c = k) s"
  shows "sort_key (\<lambda>c. - conv_lastActivity c)
           (filter (\<lambda>c. now - conv_lastActivity c < maxAge) (map snd (store_delete s i)))
         = filter (\<lambda>c. conv_id c \<noteq> i)
             (sort_key (\<lambda>c. - conv_lastActivity c)
                (filter (\<lambda>c. now - conv_lastActivity c < maxAge) (map snd s)))"
proof -
  have "filter (\<lambda>c. now - conv_lastActivity c < maxAge) (map snd (store_delete s i))
      = filter (\<lambda>c. conv_id c \<noteq> i) (filter (\<lambda>c. now - conv_lastActivity c < maxAge) (map snd s))"
    unfolding store_delete_values [OF assms] by (simp add: conj_commute)
  then show ?thesis by (simp add: filter_sort)
qed

text \<open>
  Claim C9. In a store whose entries sit under their own ids, clearing conversation \<open>i\<close>
  leaves no conversation under \<open>i\<close> and none with that id in the active list; any other
  id \<open>j\<close> (whatever page session it is bound to) still gives the same conversation; the
  active list is the former one without the conversation \<open>i\<close>, in the same order; and
  nothing else of the agent's state changes.
\<close>

theorem clearConversation_frame:
  assumes "i \<noteq> j" and "store_wf (conversations st)"
  shows "getConversation (clearConversation i st) i = None \<and>
         i \<notin> set (map conv_id (getActiveConversations now (clearConversation i st))) \<and>
         getConversation (clearConversation i st) j = getConversation st j \<and>
         getActiveConversations now (clearConversation i st)
           = filter (\<lambda>c. conv_id c \<noteq> i) (getActiveConversations now st) \<and>
         executor (clearConversation i st) = executor st \<and>
         store_wf (conversations (clearConversation i st))"
proof -
  have vals: "list_all (\<lambda>(k, c). conv_id c = k) (conversations st)"
    using assms(2) by (simp add: store_wf_def)
  have act: "getActiveConversations now (clearConversation i st)
           = filter (\<lambda>c. conv_id c \<noteq> i) (getActiveConversations now st)"
    unfolding getActiveConversations_def clearConversation_def
    using active_after_delete [OF vals] by simp
  have gone: "i \<notin> set (map conv_id (getActiveConversations now (clearConversation i st)))"
    unfolding act by auto
  have same: "getConversation (clearConversation i st) i = None"
    by (simp add: getConversation_def clearConversation_def store_delete_get_same)
  have other: "getConversation (clearConversation i st) j = getConversation st j"
    using assms(1) by (simp add: getConversation_def clearConversation_def store_delete_get_other)
  have wf: "store_wf (conversations (clearConversation i st))"
    using assms(2) by (simp add: clearConversation_def store_delete_wf)
  show ?thesis using same gone other act wf by (simp add: clearConversation_def)
qed

theorem clearConversation_frame_witness:
  "''a'' \<noteq> ''b'' \<and>
   store_wf [(''a'', \<lparr> conv_id = ''a'', conv_messages = [], conv_currentUrl = JUndefined,
                       conv_pageId = ''page'', conv_createdAt = 10, conv_lastActivity = 10 \<rparr>),
             (''b'', \<lparr> conv_id = ''b'', conv_messages = [], conv_currentUrl = JUndefined,
                       conv_pageId = ''page'', conv_createdAt = 20, conv_lastActivity = 20 \<rparr>)] \<and>
   map conv_id (getActiveConversations 30
     (clearConversation ''a''
        \<lparr> executor = \<lparr> world = \<lparr> isInitialized = False, browser = False, pages = [], trace = [] \<rparr>,
                        contexts = \<lparr> currentContext = None, contextHistory = [] \<rparr> \<rparr>,
          conversations =
            [(''a'', \<lparr> conv_id = ''a'', conv_messages = [], conv_currentUrl = JUndefined,
                       conv_pageId = ''page'', conv_createdAt = 10, conv_lastActivity = 10 \<rparr>),
             (''b'', \<lparr> conv_id = ''b'', conv_messages = [], conv_currentUrl = JUndefined,
                       conv_pageId = ''page'', conv_createdAt = 20, conv_lastActivity = 20 \<rparr>)],
          asked = [] \<rparr>))
     = [''b'']"
proof -
  define st where "st =
        \<lparr> executor = \<lparr> world = \<lparr> isInitialized = False, browser = False, pages = [], trace = [] \<rparr>,
                        contexts = \<lparr> currentContext = None, contextHistory = [] \<rparr> \<rparr>,
          conversations =
            [(''a'', \<lparr> conv_id = ''a'', conv_messages = [], conv_currentUrl = JUndefined,
                       conv_pageId = ''page'', conv_createdAt = 10, conv_lastActivity = 10 \<rparr>),
             (''b'', \<lparr> conv_id = ''b'', conv_messages = [], conv_currentUrl = JUndefined,
                       conv_pageId = ''page'', conv_createdAt = 20, conv_lastActivity = 20 \<rparr>)],
          asked = [] \<rparr>"
  have h1: "''a'' \<noteq> ''b''" by simp
  have h2: "store_wf (conversations st)" by (simp add: st_def store_wf_def)
  have before: "map conv_id (getActiveConversations 30 st) = [''b'', ''a'']"
    by (simp add: st_def getActiveConversations_def maxAge_def)
  note t = clearConversation_frame [OF h1 h2, of 30]
  have "map conv_id (getActiveConversations 30 (clearConversation ''a'' st))
      = map conv_id (filter (\<lambda>c. conv_id c \<noteq> ''a'') (getActiveConversations 30 st))"
    using t by simp
  also have "\<dots> = filter (\<lambda>k. k \<noteq> ''a'') (map conv_id (getActiveConversations 30 st))"
    by (simp add: filter_map comp_def)
  also have "\<dots> = [''b'']" unfolding before by simp
  finally show ?thesis using h1 h2 unfolding st_def by simp
qed

section \<open>The type tool with an empty text\<close>

lemma ensureReady_trace:
  assumes "ensureReady orc w = (ok, w1)"
  shows "trace w1 = trace w @ (if isReady w then [] else [Drv Initialize, Launch]) \<and> pages w1 = pages w"
  using assms
  by (auto simp: ensureReady_def initialize_def record_event_def Let_def split: if_splits sum.splits)

text \<open>
  Claim C10, as amended. A \<open>type\<close> call with a non-empty selector and the empty string as
  text, once it passes the safety gate and the driver is ready or initialised on demand,
  gives the failed result with the missing-argument error; the driver's trace grows by the
  initialisation only, and by nothing when the driver was ready.
\<close>

theorem type_empty_text_rejected:
  assumes "tc_name toolCall = ''type''"
    and "arg (tc_arguments toolCall) ''selector'' = JStr sel"
    and "sel \<noteq> []"
    and "arg (tc_arguments toolCall) ''text'' = JStr []"
    and "canExecuteTool ''type'' (safetyOf ''type'') options"
    and "ensureReady orc (world st) = (True, w1)"
  shows "executeTool orc toolCall options st
           = (failed ''Selector and text are required for type action'', st\<lparr> world := w1 \<rparr>) \<and>
         tr_success (fst (executeTool orc toolCall options st)) = False \<and>
         trace w1 = trace (world st) @ (if isReady (world st) then [] else [Drv Initialize, Launch])"
proof -
  have d: "dispatch orc toolCall (teo_pageId options) w1
             = (Inr (failed ''Selector and text are required for type action''), w1)"
    using assms(1,2,4) by (simp add: dispatch_def returns_def executeType_def Let_def)
  have e: "executeTool orc toolCall options st
           = (failed ''Selector and text are required for type action'', st\<lparr> world := w1 \<rparr>)"
    using assms(1,5,6) d by (simp add: executeTool_def failed_def)
  show ?thesis using e ensureReady_trace [OF assms(6)] by (simp add: failed_def)
qed

theorem type_empty_text_rejected_witness:
  "tc_name \<lparr> tc_id = ''1'', tc_name = ''type'',
             tc_arguments = [(''selector'', JStr ''#q''), (''text'', JStr [])] \<rparr> = ''type'' \<and>
   arg [(''selector'', JStr ''#q''), (''text'', JStr [])] ''selector'' = JStr ''#q'' \<and>
   ''#q'' \<noteq> [] \<and>
   arg [(''selector'', JStr ''#q''), (''text'', JStr [])] ''text'' = JStr [] \<and>
   canExecuteTool ''type'' (safetyOf ''type'') confirmed_options \<and>
   ensureReady quiet_oracle (world tab_executor) = (True, tab_world) \<and>
   executeTool quiet_oracle
     \<lparr> tc_id = ''1'', tc_name = ''type'',
       tc_arguments = [(''selector'', JStr ''#q''), (''text'', JStr [])] \<rparr>
     confirmed_options tab_executor
     = (failed ''Selector and text are required for type action'', tab_executor)"
proof -
  have h1: "tc_name \<lparr> tc_id = ''1'', tc_name = ''type'',
             tc_arguments = [(''selector'', JStr ''#q''), (''text'', JStr [])] \<rparr> = ''type''" by simp
  have h2: "arg (tc_arguments \<lparr> tc_id = ''1'', tc_name = ''type'',
             tc_arguments = [(''selector'', JStr ''#q''), (''text'', JStr [])] \<rparr>) ''selector'' = JStr ''#q''"
    by (simp add: arg_def obj_get_def)
  have h3: "''#q'' \<noteq> []" by simp
  have h4: "arg (tc_arguments \<lparr> tc_id = ''1'', tc_name = ''type'',
             tc_arguments = [(''selector'', JStr ''#q''), (''text'', JStr [])] \<rparr>) ''text'' = JStr []"
    by (simp add: arg_def obj_get_def)
  have h5: "canExecuteTool ''type'' (safetyOf ''type'') confirmed_options"
    by (simp add: canExecuteTool_def confirmed_options_def)
  have h6: "ensureReady quiet_oracle (world tab_executor) = (True, tab_world)"
    by (simp add: ensureReady_def isReady_def tab_executor_def tab_world_def)
  have s: "tab_executor\<lparr> world := tab_world \<rparr> = tab_executor" by (simp add: tab_executor_def)
  from type_empty_text_rejected [OF h1 h2 h3 h4 h5 h6] h2 h4 h5 h6 s
  show ?thesis by simp
qed

text \<open>
  The claim as stated fails at the gate: \<open>type\<close> is moderate, and with neither
  \<open>autoConfirm\<close> nor a granted level the same call gives the confirmation-required error,
  not the missing-argument one.
\<close>

theorem type_empty_text_gated_counterexample:
  "tr_error (fst (executeTool quiet_oracle
     \<lparr> tc_id = ''1'', tc_name = ''type'',
       tc_arguments = [(''selector'', JStr ''#q''), (''text'', JStr [])] \<rparr>
     plain_options tab_executor))
     = Some ''Tool type requires moderate permission level'' \<and>
   tr_error (fst (executeTool quiet_oracle
     \<lparr> tc_id = ''1'', tc_name = ''type'',
       tc_arguments = [(''selector'', JStr ''#q''), (''text'', JStr [])] \<rparr>
     plain_options tab_executor))
     \<noteq> Some ''Selector and text are required for type action''"
  by code_simp

end
